theory Spec2Isabelle
  imports Main "HOL-Library.Multiset"
begin

section \<open>Data model\<close>

text \<open>
  JavaScript tests a string for truthiness in \<^verbatim>\<open>if (messagesPath)\<close>, \<^verbatim>\<open>if (chatID)\<close>,
  \<^verbatim>\<open>if (chatPartner)\<close> and \<^verbatim>\<open>chatPartnerID ? ... : undefined\<close>: the empty string is falsy,
  every other string is truthy. A value of type \<^verbatim>\<open>string | undefined\<close> is a
  \<^typ>\<open>string option\<close>, with \<^verbatim>\<open>undefined\<close> falsy.
\<close>

definition truthy :: "string \<Rightarrow> bool" where
  "truthy s = (s \<noteq> [])"

definition truthy_opt :: "string option \<Rightarrow> bool" where
  "truthy_opt v = (case v of None \<Rightarrow> False | Some s \<Rightarrow> truthy s)"

text \<open>
  The classes Message, Channel, Chat and User are imported by the sources but declared
  elsewhere; the records hold the fields the sources read, and \<open>payload\<close> stands for
  what else a message carries. \<open>createdAt\<close> is the value of \<^verbatim>\<open>createdAt.getTime()\<close>, the
  milliseconds since the epoch, taken to be a number (no invalid date). \<open>channel_ref\<close>
  and \<open>chat_ref\<close> are the identities of the objects: \<^verbatim>\<open>===\<close> on two objects compares
  these.
\<close>

record message =
  message_id :: string
  creatorID :: string
  createdAt :: int
  answerable :: bool
  answerPath :: string
  payload :: string

record channel =
  channel_ref :: nat
  channel_id :: string
  channel_name :: string
  channel_memberIDs :: "string list"
  channelMessagesPath :: string
  channel_defaultChannel :: bool

record chat =
  chat_ref :: nat
  chat_id :: string
  chat_memberIDs :: "string list"
  chatMessagesPath :: string

record user =
  user_id :: string
  user_name :: string


section \<open>MessagesListViewComponent: the message reconciler\<close>

text \<open>One entry of \<^verbatim>\<open>snapshot.docChanges()\<close>: its type, \<^verbatim>\<open>doc.id\<close> and \<^verbatim>\<open>doc.data()\<close>.\<close>

datatype DocumentChangeType = Added | Modified | Removed

record 'd DocumentChange =
  change_type :: DocumentChangeType
  doc_id :: string
  doc_data :: 'd

text \<open>
  \<^verbatim>\<open>const message = this.messages.find((message) => message.id === change.doc.id);
  if (message) message.update(change.doc.data());\<close>
  The first message with the id is updated where it stands. The method \<^verbatim>\<open>update\<close> of the
  class Message is a parameter.
\<close>

fun find_update :: "('d \<Rightarrow> message \<Rightarrow> message) \<Rightarrow> string \<Rightarrow> 'd \<Rightarrow> message list \<Rightarrow> message list" where
  "find_update update i d [] = []"
| "find_update update i d (m # ms) =
     (if message_id m = i then update d m # ms else m # find_update update i d ms)"

text \<open>
  The body of the \<^verbatim>\<open>forEach\<close> over the changes, on the pair of the local variable
  \<^verbatim>\<open>sortNeeded\<close> and \<^verbatim>\<open>this.messages\<close>. The constructor of Message is the parameter
  \<open>Message\<close>, applied to the data, the path and the id as in the source.
\<close>

definition docChange ::
  "('d \<Rightarrow> string \<Rightarrow> string \<Rightarrow> message) \<Rightarrow> ('d \<Rightarrow> message \<Rightarrow> message) \<Rightarrow> string \<Rightarrow>
   bool \<times> message list \<Rightarrow> 'd DocumentChange \<Rightarrow> bool \<times> message list" where
  "docChange Message update messagesPath st change =
     (let (sortNeeded, messages) = st;
          (sortNeeded, messages) =
            (if change_type change = Added
             then (True, messages @ [Message (doc_data change) messagesPath (doc_id change)])
             else (sortNeeded, messages));
          messages =
            (if change_type change = Modified
             then find_update update (doc_id change) (doc_data change) messages
             else messages);
          messages =
            (if change_type change = Removed
             then filter (\<lambda>message. message_id message \<noteq> doc_id change) messages
             else messages)
      in (sortNeeded, messages))"

definition docChanges ::
  "('d \<Rightarrow> string \<Rightarrow> string \<Rightarrow> message) \<Rightarrow> ('d \<Rightarrow> message \<Rightarrow> message) \<Rightarrow> string \<Rightarrow>
   'd DocumentChange list \<Rightarrow> message list \<Rightarrow> bool \<times> message list" where
  "docChanges Message update messagesPath changes messages =
     foldl (docChange Message update messagesPath) (False, messages) changes"

text \<open>
  The callback given to \<^verbatim>\<open>onSnapshot\<close>, run once for each batch of changes.
  \<^verbatim>\<open>Array.prototype.sort\<close> is stable and the comparator is the difference of the
  timestamps, so the result is the stable sort by \<open>createdAt\<close>, which \<^const>\<open>sort_key\<close>
  computes.
\<close>

definition onSnapshot_callback ::
  "('d \<Rightarrow> string \<Rightarrow> string \<Rightarrow> message) \<Rightarrow> ('d \<Rightarrow> message \<Rightarrow> message) \<Rightarrow> string \<Rightarrow>
   'd DocumentChange list \<Rightarrow> message list \<Rightarrow> message list" where
  "onSnapshot_callback Message update messagesPath changes messages =
     (let (sortNeeded, messages') = docChanges Message update messagesPath changes messages
      in if sortNeeded then sort_key createdAt messages' else messages')"

text \<open>The batches of one feed, applied one after the other.\<close>

definition onSnapshots ::
  "('d \<Rightarrow> string \<Rightarrow> string \<Rightarrow> message) \<Rightarrow> ('d \<Rightarrow> message \<Rightarrow> message) \<Rightarrow> string \<Rightarrow>
   'd DocumentChange list list \<Rightarrow> message list \<Rightarrow> message list" where
  "onSnapshots Message update messagesPath batches messages =
     foldl (\<lambda>ms changes. onSnapshot_callback Message update messagesPath changes ms) messages batches"

text \<open>
  A collection has one document for an id, so the changes of a feed keep the ids of the
  messages distinct: \<open>replay_distinct\<close> says so of the changes \<open>cs\<close> applied one by one to
  the list \<open>ms\<close>, with no sort in between.
\<close>

fun replay_distinct ::
  "('d \<Rightarrow> string \<Rightarrow> string \<Rightarrow> message) \<Rightarrow> ('d \<Rightarrow> message \<Rightarrow> message) \<Rightarrow> string \<Rightarrow>
   message list \<Rightarrow> 'd DocumentChange list \<Rightarrow> bool" where
  "replay_distinct Message update messagesPath ms [] = distinct (map message_id ms)"
| "replay_distinct Message update messagesPath ms (c # cs) =
     (distinct (map message_id ms) \<and>
      replay_distinct Message update messagesPath
        (snd (docChange Message update messagesPath (False, ms) c)) cs)"

text \<open>
  The state of the component with the listeners that Firestore holds for it. A call of
  \<^verbatim>\<open>onSnapshot\<close> registers a listener on a path and returns the function that removes it;
  \<open>unsubMessages\<close> holds the number of the listener that function removes
  (\<open>None\<close> for \<^verbatim>\<open>null\<close>).
\<close>

record component =
  messages :: "message list"
  messagesDates :: "int list"
  messageEditorOpen :: bool
  unsubMessages :: "nat option"
  listeners :: "(nat \<times> string) list"
  next_listener :: nat

definition subscribeMessages :: "string option \<Rightarrow> component \<Rightarrow> component" where
  "subscribeMessages messagesPath s =
     (let s1 = (case unsubMessages s of
                  Some h \<Rightarrow> s\<lparr>listeners := filter (\<lambda>l. fst l \<noteq> h) (listeners s)\<rparr>
                | None \<Rightarrow> s)
      in case messagesPath of
           None \<Rightarrow> s1
         | Some path \<Rightarrow>
             if truthy path
             then s1\<lparr>listeners := listeners s1 @ [(next_listener s1, path)],
                     unsubMessages := Some (next_listener s1),
                     next_listener := Suc (next_listener s1)\<rparr>
             else s1)"

text \<open>The setter of the input \<^verbatim>\<open>messagesPath\<close>.\<close>

definition set_messagesPath :: "string option \<Rightarrow> component \<Rightarrow> component" where
  "set_messagesPath v s =
     (let s1 = s\<lparr>messages := [], messagesDates := []\<rparr>;
          s2 = subscribeMessages v s1
      in s2\<lparr>messageEditorOpen := False\<rparr>)"

text \<open>
  Firestore delivers a batch of changes to the listener \<open>h\<close>: the callback registered
  for it runs, with the path it was registered on; a listener that was removed gets
  nothing.
\<close>

definition snapshot ::
  "('d \<Rightarrow> string \<Rightarrow> string \<Rightarrow> message) \<Rightarrow> ('d \<Rightarrow> message \<Rightarrow> message) \<Rightarrow>
   nat \<Rightarrow> 'd DocumentChange list \<Rightarrow> component \<Rightarrow> component" where
  "snapshot Message update h changes s =
     (case map_of (listeners s) h of
        None \<Rightarrow> s
      | Some messagesPath \<Rightarrow>
          s\<lparr>messages := onSnapshot_callback Message update messagesPath changes (messages s)\<rparr>)"

text \<open>
  The component cancels a listener only through \<open>unsubMessages\<close>, so in every state it
  reaches the only listener alive is the one recorded there, and the numbers of the
  listeners are below the next one to be given out.
\<close>

definition component_inv :: "component \<Rightarrow> bool" where
  "component_inv s =
     list_all (\<lambda>l. unsubMessages s = Some (fst l) \<and> fst l < next_listener s) (listeners s)"

definition component_init :: component where
  "component_init =
     \<lparr>messages = [], messagesDates = [], messageEditorOpen = False, unsubMessages = None,
      listeners = [], next_listener = 0\<rparr>"


section \<open>NavigationService\<close>

text \<open>
  The file of the service holds two listings of the class. The definitions of this
  section follow the later one, which has the type \<^verbatim>\<open>ChangeNavigation\<close>, the creation of
  a chat and the test of \<^verbatim>\<open>answerable\<close>. The earlier one awaits the lookup inside
  \<^verbatim>\<open>setChatViewObject\<close>, creates no chat, sets the thread for every message and sends
  plain strings to \<open>changeSubject\<close>; its definitions, with names that start with
  \<open>earlier\<close>, follow those of the later one. The search context is the same in both.
\<close>

datatype ChangeNavigation =
  unknow | chatViewObjectSetAsChannel | chatViewObjectSetAsChat
  | threadViewObjectSet | threadViewObjectCleared

text \<open>\<open>view\<close> is the type \<^verbatim>\<open>Channel | Chat\<close> of the view object, \<open>selection\<close> the type
  \<^verbatim>\<open>Channel | User\<close> of the parameter of \<^verbatim>\<open>setChatViewObject\<close>.\<close>

datatype view = Channel channel | Chat chat

datatype selection = SelectChannel channel | SelectUser user

text \<open>What an awaited promise of a collaborator settles to.\<close>

datatype 'a settled = Resolved 'a | Rejected

text \<open>
  The fields of the service (\<open>u_chatViewObject\<close> is \<^verbatim>\<open>_chatViewObject\<close>, and so on), the
  values it has sent to \<open>changeSubject\<close>, the numbers of \<^verbatim>\<open>next()\<close> and \<^verbatim>\<open>emit()\<close> calls on
  \<open>navigationCompleteSubject\<close> and \<open>navigationComplete\<close>, and what it reads and calls of
  ChannelService and UsersService, which are not among the sources: the list \<open>chats\<close>,
  \<open>defaultChannel\<close>, the user ids \<^verbatim>\<open>addChatWithUserOnFirestore\<close> was called with, the
  subscriptions of the service to \<^verbatim>\<open>chatListChange$\<close> (each with the \<open>chatID\<close> its callback
  looks for), \<open>currentUser\<close> and \<open>getUserByID\<close>. \<open>unsubscribe_timeouts\<close> are the pending
  \<^verbatim>\<open>setTimeout(() => chatListChangeSubscription.unsubscribe(), 100)\<close>.
\<close>

record app_state =
  u_chatViewObject :: "view option"
  u_chatViewPath :: "string option"
  u_threadViewObject :: "message option"
  u_threadViewPath :: "string option"
  changeSubject :: "ChangeNavigation list"
  navigationCompleteSubject :: nat
  navigationComplete :: nat
  chats :: "chat list"
  defaultChannel :: channel
  addChatWithUserOnFirestore_calls :: "string list"
  chatListChange_subscriptions :: "(nat \<times> string) list"
  next_subscription :: nat
  unsubscribe_timeouts :: "nat list"
  currentUser :: "user option"
  getUserByID :: "string \<Rightarrow> user option"

definition chatViewObject :: "app_state \<Rightarrow> view" where
  "chatViewObject s =
     (case u_chatViewObject s of None \<Rightarrow> Channel (defaultChannel s) | Some v \<Rightarrow> v)"


definition setChatViewObjectAsChannel :: "channel \<Rightarrow> app_state \<Rightarrow> app_state" where
  "setChatViewObjectAsChannel channel s =
     s\<lparr>u_chatViewObject := Some (Channel channel),
       u_chatViewPath :=
         (if channelMessagesPath channel = '''' then None
          else Some (channelMessagesPath channel)),
       changeSubject := changeSubject s @ [chatViewObjectSetAsChannel]\<rparr>"

definition setThreadViewObject :: "message \<Rightarrow> app_state \<Rightarrow> app_state" where
  "setThreadViewObject message s =
     (if answerable message
      then s\<lparr>u_threadViewPath := Some (answerPath message),
             u_threadViewObject := Some message,
             changeSubject := changeSubject s @ [threadViewObjectSet]\<rparr>
      else s)"

definition clearThreadViewObject :: "app_state \<Rightarrow> app_state" where
  "clearThreadViewObject s =
     s\<lparr>u_threadViewPath := None,
       u_threadViewObject := None,
       changeSubject := changeSubject s @ [threadViewObjectCleared]\<rparr>"

text \<open>
  \<^verbatim>\<open>setChatViewObjectAsChat\<close> is asynchronous. Its body up to the first \<^verbatim>\<open>await\<close> calls
  \<^verbatim>\<open>getChatWithUserByID(user.id)\<close> and changes nothing. \<open>setChatViewObjectAsChat_afterLookup\<close>
  is what runs when that promise has settled, up to the end of the function or to the
  second \<^verbatim>\<open>await\<close>, on \<^verbatim>\<open>addChatWithUserOnFirestore(user.id)\<close>;
  \<open>setChatViewObjectAsChat_afterCreation\<close> is what runs when the second promise has
  settled. A promise that rejects ends the function at its \<^verbatim>\<open>await\<close>.
\<close>

definition setChatViewObjectAsChat_afterLookup ::
  "user \<Rightarrow> chat option settled \<Rightarrow> app_state \<Rightarrow> app_state" where
  "setChatViewObjectAsChat_afterLookup user lookup s =
     (case lookup of
        Rejected \<Rightarrow> s
      | Resolved (Some chat) \<Rightarrow>
          s\<lparr>u_chatViewObject := Some (Chat chat),
            u_chatViewPath := Some (chatMessagesPath chat),
            changeSubject := changeSubject s @ [chatViewObjectSetAsChat]\<rparr>
      | Resolved None \<Rightarrow>
          s\<lparr>addChatWithUserOnFirestore_calls :=
              addChatWithUserOnFirestore_calls s @ [user_id user]\<rparr>)"

definition subscribe_chatListChange :: "string \<Rightarrow> app_state \<Rightarrow> app_state" where
  "subscribe_chatListChange chatID s =
     s\<lparr>chatListChange_subscriptions :=
         chatListChange_subscriptions s @ [(next_subscription s, chatID)],
       next_subscription := Suc (next_subscription s)\<rparr>"

definition setChatViewObjectAsChat_afterCreation ::
  "string option settled \<Rightarrow> app_state \<Rightarrow> app_state" where
  "setChatViewObjectAsChat_afterCreation creation s =
     (case creation of
        Rejected \<Rightarrow> s
      | Resolved chatID \<Rightarrow>
          (let s1 = (case chatID of
                       None \<Rightarrow> s
                     | Some i \<Rightarrow> if truthy i then subscribe_chatListChange i s else s)
           in s1\<lparr>changeSubject := changeSubject s1 @ [chatViewObjectSetAsChat]\<rparr>))"

text \<open>The whole of \<^verbatim>\<open>setChatViewObjectAsChat\<close>, given what its two promises settle to.\<close>

definition setChatViewObjectAsChat ::
  "user \<Rightarrow> chat option settled \<Rightarrow> string option settled \<Rightarrow> app_state \<Rightarrow> app_state" where
  "setChatViewObjectAsChat user lookup creation s =
     (let s1 = setChatViewObjectAsChat_afterLookup user lookup s
      in if lookup = Resolved None then setChatViewObjectAsChat_afterCreation creation s1
         else s1)"

text \<open>
  The callback subscribed to \<^verbatim>\<open>chatListChange$\<close>, for the subscription \<open>sub\<close>; a
  notification of the chat list, which runs the callbacks of the subscriptions alive in
  the order they were made, the list \<open>chats\<close> being then \<open>cs\<close>; and the timeout that ends
  the subscription \<open>h\<close>. If the stream hands its last value to a new subscriber, that
  is one more notification, right after the subscription.
\<close>

definition chatListChange_callback :: "nat \<times> string \<Rightarrow> app_state \<Rightarrow> app_state" where
  "chatListChange_callback sub s =
     (case find (\<lambda>chat. chat_id chat = snd sub) (chats s) of
        Some chat \<Rightarrow>
          s\<lparr>u_chatViewObject := Some (Chat chat),
            u_chatViewPath := Some (chatMessagesPath chat),
            unsubscribe_timeouts := unsubscribe_timeouts s @ [fst sub]\<rparr>
      | None \<Rightarrow> s)"

definition chatListChange :: "chat list \<Rightarrow> app_state \<Rightarrow> app_state" where
  "chatListChange cs s =
     foldl (\<lambda>s' sub. chatListChange_callback sub s') (s\<lparr>chats := cs\<rparr>)
       (chatListChange_subscriptions s)"

definition unsubscribe_timeout :: "nat \<Rightarrow> app_state \<Rightarrow> app_state" where
  "unsubscribe_timeout h s =
     (if h \<in> set (unsubscribe_timeouts s)
      then s\<lparr>chatListChange_subscriptions :=
               filter (\<lambda>sub. fst sub \<noteq> h) (chatListChange_subscriptions s),
             unsubscribe_timeouts := remove1 h (unsubscribe_timeouts s)\<rparr>
      else s)"

text \<open>
  \<^verbatim>\<open>setChatViewObject\<close> up to its \<^verbatim>\<open>await\<close> on the timeout of 100 ms: for a user the
  promise of \<^verbatim>\<open>setChatViewObjectAsChat\<close> is not awaited, so the thread is cleared before
  the lookup has settled. \<open>setChatViewObject_afterTimeout\<close> is the rest of the function,
  with what the promise returned to the caller settles to: nothing in the function
  throws.
\<close>

definition setChatViewObject_beforeTimeout :: "selection \<Rightarrow> app_state \<Rightarrow> app_state" where
  "setChatViewObject_beforeTimeout object s =
     clearThreadViewObject
       (case object of
          SelectChannel channel \<Rightarrow> setChatViewObjectAsChannel channel s
        | SelectUser user \<Rightarrow> s)"

definition same_object :: "view option \<Rightarrow> selection \<Rightarrow> bool" where
  "same_object v object =
     (case (v, object) of
        (Some (Channel c), SelectChannel c') \<Rightarrow> channel_ref c = channel_ref c'
      | _ \<Rightarrow> False)"

definition instanceof_Chat :: "view option \<Rightarrow> bool" where
  "instanceof_Chat v = (case v of Some (Chat c) \<Rightarrow> True | _ \<Rightarrow> False)"

definition instanceof_User :: "selection \<Rightarrow> bool" where
  "instanceof_User object = (case object of SelectUser u \<Rightarrow> True | _ \<Rightarrow> False)"

definition setChatViewObject_afterTimeout ::
  "selection \<Rightarrow> app_state \<Rightarrow> unit settled \<times> app_state" where
  "setChatViewObject_afterTimeout object s =
     (let s1 = s\<lparr>navigationCompleteSubject := Suc (navigationCompleteSubject s)\<rparr>
      in if same_object (u_chatViewObject s1) object \<or>
            (instanceof_Chat (u_chatViewObject s1) \<and> instanceof_User object)
         then (Resolved (), s1\<lparr>navigationComplete := Suc (navigationComplete s1)\<rparr>)
         else (Resolved (), s1))"

text \<open>
  One call of \<^verbatim>\<open>setChatViewObject\<close> run to its end, in the schedule where the promises of
  the collaborators settle within the 100 ms and nothing else runs in between.
\<close>

definition setChatViewObject ::
  "selection \<Rightarrow> chat option settled \<Rightarrow> string option settled \<Rightarrow> app_state \<Rightarrow>
   unit settled \<times> app_state" where
  "setChatViewObject object lookup creation s =
     (let s1 = setChatViewObject_beforeTimeout object s;
          s2 = (case object of
                  SelectChannel channel \<Rightarrow> s1
                | SelectUser user \<Rightarrow> setChatViewObjectAsChat user lookup creation s1)
      in setChatViewObject_afterTimeout object s2)"

subsection \<open>The earlier listing of the service\<close>

text \<open>
  The fields of the service in the earlier listing; \<open>changeSubject\<close> carries strings
  there.
\<close>

record earlier_service =
  e_chatViewObject :: "view option"
  e_chatViewPath :: "string option"
  e_threadViewObject :: "message option"
  e_threadViewPath :: "string option"
  e_changeSubject :: "string list"
  e_navigationCompleteSubject :: nat
  e_navigationComplete :: nat

text \<open>\<^verbatim>\<open>setThreadViewObject\<close> of the earlier listing: there is no test of the message.\<close>

definition earlier_setThreadViewObject :: "message \<Rightarrow> earlier_service \<Rightarrow> earlier_service" where
  "earlier_setThreadViewObject message s =
     s\<lparr>e_threadViewPath := Some (answerPath message),
       e_threadViewObject := Some message,
       e_changeSubject := e_changeSubject s @ [''message'']\<rparr>"

definition earlier_clearThread :: "earlier_service \<Rightarrow> earlier_service" where
  "earlier_clearThread s = s\<lparr>e_threadViewPath := None, e_threadViewObject := None\<rparr>"

text \<open>
  \<^verbatim>\<open>setChatViewObject\<close> of the earlier listing up to its \<^verbatim>\<open>await\<close> on the timeout. For a
  user the lookup is awaited first: \<open>lookup\<close> is what it settles to, and when it rejects
  the function ends there. The test is \<^verbatim>\<open>channelMessagesPath == ''\<close>, which for a string
  is true of the empty string only. \<open>earlier_setChatViewObject_afterTimeout\<close> is the
  rest of the function.
\<close>

definition earlier_setChatViewObject_beforeTimeout ::
  "selection \<Rightarrow> chat option settled \<Rightarrow> earlier_service \<Rightarrow> earlier_service" where
  "earlier_setChatViewObject_beforeTimeout object lookup s =
     (if instanceof_User object \<and> lookup = Rejected then s
      else
        let s1 = (case object of
                    SelectChannel channel \<Rightarrow>
                      s\<lparr>e_chatViewObject := Some (Channel channel),
                        e_chatViewPath :=
                          (if channelMessagesPath channel = '''' then None
                           else Some (channelMessagesPath channel))\<rparr>
                  | SelectUser user \<Rightarrow>
                      (case lookup of
                         Resolved (Some chat) \<Rightarrow>
                           s\<lparr>e_chatViewObject := Some (Chat chat),
                             e_chatViewPath := Some (chatMessagesPath chat)\<rparr>
                       | _ \<Rightarrow> s));
            s2 = earlier_clearThread s1
        in s2\<lparr>e_changeSubject := e_changeSubject s2 @ [''chatViewObjectSet'']\<rparr>)"

definition earlier_setChatViewObject_afterTimeout ::
  "selection \<Rightarrow> earlier_service \<Rightarrow> earlier_service" where
  "earlier_setChatViewObject_afterTimeout object s =
     (let s1 = s\<lparr>e_navigationCompleteSubject := Suc (e_navigationCompleteSubject s)\<rparr>
      in if same_object (e_chatViewObject s1) object \<or>
            (instanceof_Chat (e_chatViewObject s1) \<and> instanceof_User object)
         then s1\<lparr>e_navigationComplete := Suc (e_navigationComplete s1)\<rparr>
         else s1)"

subsection \<open>The search context\<close>

definition getChatPartnerName :: "app_state \<Rightarrow> string option" where
  "getChatPartnerName s =
     (case chatViewObject s of
        Chat c \<Rightarrow>
          (case find (\<lambda>i. Some i \<noteq> map_option user_id (currentUser s)) (chat_memberIDs c) of
             Some chatPartnerID \<Rightarrow>
               (if truthy chatPartnerID
                then map_option user_name (getUserByID s chatPartnerID)
                else None)
           | None \<Rightarrow> None)
      | Channel ch \<Rightarrow> None)"

definition isSelfChat :: "app_state \<Rightarrow> bool" where
  "isSelfChat s =
     (case (chatViewObject s, currentUser s) of
        (Chat c, Some u) \<Rightarrow>
          list_all (\<lambda>i. Some i = map_option user_id (currentUser s)) (chat_memberIDs c)
      | _ \<Rightarrow> False)"

text \<open>A value of type \<^verbatim>\<open>string | undefined\<close> inside a template literal: \<^verbatim>\<open>undefined\<close> is
  printed as the word.\<close>

definition template :: "string option \<Rightarrow> string" where
  "template v = (case v of Some s \<Rightarrow> s | None \<Rightarrow> ''undefined'')"

definition getSearchContext :: "app_state \<Rightarrow> string" where
  "getSearchContext s =
     (case chatViewObject s of
        Chat c \<Rightarrow>
          (let chatPartner = getChatPartnerName s
           in if truthy_opt chatPartner then ''in:@'' @ template chatPartner
              else if isSelfChat s
                   then ''in:@'' @ template (map_option user_name (currentUser s))
                   else '''')
      | Channel ch \<Rightarrow> ''in:#'' @ channel_name ch)"


section \<open>Example values\<close>

text \<open>
  An instance of the constructor and of the method \<^verbatim>\<open>update\<close> of Message, where the data
  of a document are a timestamp and a text, and values to run the definitions on.
\<close>

definition Message_ex :: "int \<times> string \<Rightarrow> string \<Rightarrow> string \<Rightarrow> message" where
  "Message_ex d path i =
     \<lparr>message_id = i, creatorID = ''u1'', createdAt = fst d, answerable = True,
      answerPath = path @ ''/'' @ i @ ''/answers'', payload = snd d\<rparr>"

definition update_ex :: "int \<times> string \<Rightarrow> message \<Rightarrow> message" where
  "update_ex d m = m\<lparr>payload := snd d\<rparr>"

definition change_ex :: "DocumentChangeType \<Rightarrow> string \<Rightarrow> int \<Rightarrow> string \<Rightarrow> (int \<times> string) DocumentChange" where
  "change_ex ty i t txt = \<lparr>change_type = ty, doc_id = i, doc_data = (t, txt)\<rparr>"

definition message_ex :: "string \<Rightarrow> int \<Rightarrow> string \<Rightarrow> message" where
  "message_ex i t txt = Message_ex (t, txt) ''p'' i"

definition component_ex :: component where
  "component_ex =
     snapshot Message_ex update_ex 0 [change_ex Added ''a'' 5 ''x'']
       (set_messagesPath (Some ''channels/c1/messages'') component_init)"


text \<open>Channels, chats, users and states of the services, and a run where a chat is created.\<close>

definition welcome_ex :: channel where
  "welcome_ex =
     \<lparr>channel_ref = 0, channel_id = '''', channel_name = ''Willkommen'',
      channel_memberIDs = [], channelMessagesPath = '''', channel_defaultChannel = True\<rparr>"

definition general_ex :: channel where
  "general_ex =
     \<lparr>channel_ref = 1, channel_id = ''ch1'', channel_name = ''general'',
      channel_memberIDs = [''u1'', ''u2''], channelMessagesPath = ''channels/ch1/messages'',
      channel_defaultChannel = False\<rparr>"

definition random_ex :: channel where
  "random_ex =
     \<lparr>channel_ref = 2, channel_id = ''ch2'', channel_name = ''random'',
      channel_memberIDs = [''u1''], channelMessagesPath = ''channels/ch2/messages'',
      channel_defaultChannel = False\<rparr>"

definition chat_ex :: "nat \<Rightarrow> string \<Rightarrow> string list \<Rightarrow> string \<Rightarrow> chat" where
  "chat_ex r i ms p = \<lparr>chat_ref = r, chat_id = i, chat_memberIDs = ms, chatMessagesPath = p\<rparr>"

definition user_ex :: "string \<Rightarrow> string \<Rightarrow> user" where
  "user_ex i n = \<lparr>user_id = i, user_name = n\<rparr>"

definition users_ex :: "string \<Rightarrow> user option" where
  "users_ex =
     map_of [(''u1'', user_ex ''u1'' ''alice''), (''u2'', user_ex ''u2'' ''bob''),
             (''u3'', user_ex ''u3'' '''')]"

definition app_ex :: "view option \<Rightarrow> user option \<Rightarrow> app_state" where
  "app_ex v cur =
     \<lparr>u_chatViewObject = v,
      u_chatViewPath = None,
      u_threadViewObject = None,
      u_threadViewPath = None,
      changeSubject = [],
      navigationCompleteSubject = 0,
      navigationComplete = 0,
      chats = [],
      defaultChannel = welcome_ex,
      addChatWithUserOnFirestore_calls = [],
      chatListChange_subscriptions = [],
      next_subscription = 0,
      unsubscribe_timeouts = [],
      currentUser = cur,
      getUserByID = users_ex\<rparr>"

definition chat_view_ex :: "string list \<Rightarrow> user option \<Rightarrow> app_state" where
  "chat_view_ex members cur =
     app_ex (Some (Chat (chat_ex 5 ''c1'' members ''chats/c1/messages''))) cur"

definition carol_ex :: user where
  "carol_ex = user_ex ''u4'' ''carol''"

definition bob_chat_ex :: chat where
  "bob_chat_ex = chat_ex 7 ''c12'' [''u1'', ''u2''] ''chats/c12/messages''"

definition carol_chat_ex :: chat where
  "carol_chat_ex = chat_ex 8 ''c14'' [''u1'', ''u4''] ''chats/c14/messages''"

definition waiting_ex :: app_state where
  "waiting_ex =
     setChatViewObjectAsChat carol_ex (Resolved None) (Resolved (Some ''c14''))
       (setChatViewObject_beforeTimeout (SelectUser carol_ex)
          (app_ex None (Some (user_ex ''u1'' ''alice''))))"

definition surfaced_ex :: app_state where
  "surfaced_ex = chatListChange [carol_chat_ex] waiting_ex"

definition left_ex :: app_state where
  "left_ex = setChatViewObject_beforeTimeout (SelectChannel general_ex) surfaced_ex"

definition earlier_ex :: earlier_service where
  "earlier_ex =
     \<lparr>e_chatViewObject = None, e_chatViewPath = None, e_threadViewObject = None,
      e_threadViewPath = None, e_changeSubject = [], e_navigationCompleteSubject = 0,
      e_navigationComplete = 0\<rparr>"

definition dave_ex :: user where
  "dave_ex = user_ex ''u5'' ''dave''"

definition dave_chat_ex :: chat where
  "dave_chat_ex = chat_ex 9 ''c15'' [''u1'', ''u5''] ''chats/c15/messages''"

definition two_waiting_ex :: app_state where
  "two_waiting_ex =
     setChatViewObjectAsChat dave_ex (Resolved None) (Resolved (Some ''c15''))
       (setChatViewObject_beforeTimeout (SelectUser dave_ex) waiting_ex)"



section \<open>The definitions of the service, to unfold together\<close>

lemmas nav_defs = setChatViewObject_def setChatViewObject_beforeTimeout_def
  setChatViewObject_afterTimeout_def setChatViewObjectAsChat_def
  setChatViewObjectAsChat_afterLookup_def setChatViewObjectAsChat_afterCreation_def
  setChatViewObjectAsChannel_def clearThreadViewObject_def subscribe_chatListChange_def
  same_object_def instanceof_Chat_def instanceof_User_def truthy_def


section \<open>The reconciler keeps the messages sorted\<close>

lemma docChange_Added:
  "change_type c = Added \<Longrightarrow>
   docChange M u p (b, ms) c = (True, ms @ [M (doc_data c) p (doc_id c)])"
  by (simp add: docChange_def)

lemma docChange_Modified:
  "change_type c = Modified \<Longrightarrow>
   docChange M u p (b, ms) c = (b, find_update u (doc_id c) (doc_data c) ms)"
  by (simp add: docChange_def)

lemma docChange_Removed:
  "change_type c = Removed \<Longrightarrow>
   docChange M u p (b, ms) c = (b, filter (\<lambda>m. message_id m \<noteq> doc_id c) ms)"
  by (simp add: docChange_def)

lemma createdAt_find_update:
  assumes "\<And>d m. createdAt (u d m) = createdAt m"
  shows "map createdAt (find_update u i d ms) = map createdAt ms"
  by (induction ms) (simp_all add: assms)

lemma docChange_inv:
  assumes u: "\<And>d m. createdAt (u d m) = createdAt m"
    and inv: "b \<or> sorted (map createdAt ms)"
  shows "fst (docChange M u p (b, ms) c) \<or> sorted (map createdAt (snd (docChange M u p (b, ms) c)))"
proof (cases "change_type c")
  case Added
  then show ?thesis by (simp add: docChange_Added)
next
  case Modified
  with inv show ?thesis by (simp add: docChange_Modified createdAt_find_update [OF u])
next
  case Removed
  with inv show ?thesis by (auto simp: docChange_Removed intro: sorted_filter)
qed

lemma foldl_docChange_inv:
  assumes u: "\<And>d m. createdAt (u d m) = createdAt m"
  shows "fst st \<or> sorted (map createdAt (snd st)) \<Longrightarrow>
         fst (foldl (docChange M u p) st cs) \<or>
         sorted (map createdAt (snd (foldl (docChange M u p) st cs)))"
proof (induction cs arbitrary: st)
  case Nil
  then show ?case by simp
next
  case (Cons c cs)
  obtain b ms where st: "st = (b, ms)" by (cases st)
  from Cons.prems st have "b \<or> sorted (map createdAt ms)" by simp
  from docChange_inv [OF u this] have
    "fst (docChange M u p st c) \<or> sorted (map createdAt (snd (docChange M u p st c)))"
    by (simp add: st)
  from Cons.IH [OF this] show ?case by simp
qed

lemma sorted_onSnapshot_callback:
  assumes u: "\<And>d m. createdAt (u d m) = createdAt m"
    and s: "sorted (map createdAt ms)"
  shows "sorted (map createdAt (onSnapshot_callback M u p cs ms))"
proof -
  have "fst (foldl (docChange M u p) (False, ms) cs) \<or>
        sorted (map createdAt (snd (foldl (docChange M u p) (False, ms) cs)))"
    by (rule foldl_docChange_inv) (simp_all add: u s)
  then show ?thesis
    by (auto simp: onSnapshot_callback_def docChanges_def split: prod.splits)
qed

lemma sorted_onSnapshots:
  assumes u: "\<And>d m. createdAt (u d m) = createdAt m"
  shows "sorted (map createdAt ms) \<Longrightarrow> sorted (map createdAt (onSnapshots M u p bs ms))"
  unfolding onSnapshots_def
  by (induction bs arbitrary: ms) (simp_all add: sorted_onSnapshot_callback [OF u])

lemma stable_onSnapshot_callback:
  "filter (\<lambda>m. createdAt m = t) (onSnapshot_callback M u p cs ms) =
   filter (\<lambda>m. createdAt m = t) (snd (docChanges M u p cs ms))"
  by (simp add: onSnapshot_callback_def sort_key_stable split: prod.splits)

lemma sort_key_sort_key_append:
  "sort_key f (sort_key f xs @ ys) = sort_key f (xs @ ys)"
proof (rule properties_for_sort_key)
  show "mset (sort_key f (xs @ ys)) = mset (sort_key f xs @ ys)" by simp
  show "sorted (map f (sort_key f (xs @ ys)))" by (rule sorted_sort_key)
  fix k
  have "filter (\<lambda>x. f x = f k) (sort_key f (xs @ ys)) = filter (\<lambda>x. f x = f k) (sort_key f xs @ ys)"
    by (simp add: sort_key_stable)
  then show "filter (\<lambda>x. f k = f x) (sort_key f (xs @ ys)) = filter (\<lambda>x. f k = f x) (sort_key f xs @ ys)"
    by (simp add: eq_commute [of "f k"])
qed

lemma foldl_docChange_added:
  "\<forall>c \<in> set cs. change_type c = Added \<Longrightarrow>
   foldl (docChange M u p) (b, ms) cs =
     (b \<or> cs \<noteq> [], ms @ map (\<lambda>c. M (doc_data c) p (doc_id c)) cs)"
  by (induction cs arbitrary: b ms) (simp_all add: docChange_Added)

lemma onSnapshot_callback_added:
  assumes "\<forall>c \<in> set cs. change_type c = Added"
  shows "onSnapshot_callback M u p cs (sort_key createdAt xs) =
         sort_key createdAt (xs @ map (\<lambda>c. M (doc_data c) p (doc_id c)) cs)"
proof (cases "cs = []")
  case True
  then show ?thesis
    by (simp add: onSnapshot_callback_def docChanges_def)
next
  case False
  with assms show ?thesis
    by (simp add: onSnapshot_callback_def docChanges_def foldl_docChange_added
        sort_key_sort_key_append)
qed

lemma onSnapshots_added:
  "\<forall>cs \<in> set bs. \<forall>c \<in> set cs. change_type c = Added \<Longrightarrow>
   onSnapshots M u p bs (sort_key createdAt xs) =
     sort_key createdAt (xs @ map (\<lambda>c. M (doc_data c) p (doc_id c)) (concat bs))"
  unfolding onSnapshots_def
  by (induction bs arbitrary: xs) (simp_all add: onSnapshot_callback_added)

lemma snd_docChange_flag:
  "snd (docChange M u p (b, ms) c) = snd (docChange M u p (False, ms) c)"
  by (cases "change_type c") (simp_all add: docChange_Added docChange_Modified docChange_Removed)

lemma fst_docChange:
  "fst (docChange M u p (b, ms) c) = (b \<or> change_type c = Added)"
  by (cases "change_type c") (simp_all add: docChange_Added docChange_Modified docChange_Removed)

lemma snd_foldl_docChange:
  "snd (foldl (docChange M u p) (b, ms) cs) =
   foldl (\<lambda>ms c. snd (docChange M u p (False, ms) c)) ms cs"
proof (induction cs arbitrary: b ms)
  case Nil
  show ?case by simp
next
  case (Cons c cs)
  obtain b' ms' where e: "docChange M u p (b, ms) c = (b', ms')"
    by (cases "docChange M u p (b, ms) c")
  then have "ms' = snd (docChange M u p (False, ms) c)"
    using snd_docChange_flag [of M u p b ms c] by simp
  with Cons.IH [of b' ms'] e show ?case by simp
qed

lemma fst_foldl_docChange:
  "fst (foldl (docChange M u p) (b, ms) cs) = (b \<or> list_ex (\<lambda>c. change_type c = Added) cs)"
proof (induction cs arbitrary: b ms)
  case Nil
  show ?case by simp
next
  case (Cons c cs)
  obtain b' ms' where e: "docChange M u p (b, ms) c = (b', ms')"
    by (cases "docChange M u p (b, ms) c")
  then have "b' = (b \<or> change_type c = Added)"
    using fst_docChange [of M u p b ms c] by simp
  with Cons.IH [of b' ms'] e show ?case by auto
qed

lemma find_update_distinct:
  assumes "distinct (map message_id ms)"
  shows "find_update u i d ms = map (\<lambda>m. if message_id m = i then u d m else m) ms"
  using assms
proof (induction ms)
  case Nil
  show ?case by simp
next
  case (Cons a ms)
  show ?case
  proof (cases "message_id a = i")
    case True
    with Cons.prems have "i \<notin> message_id ` set ms" by simp
    then have "\<forall>m \<in> set ms. message_id m \<noteq> i" by blast
    then have "map (\<lambda>m. if message_id m = i then u d m else m) ms = ms"
      by (simp add: map_idI)
    with True show ?thesis by simp
  next
    case False
    with Cons show ?thesis by simp
  qed
qed

lemma insort_key_map_same_key:
  assumes "\<And>x. f (g x) = f x"
  shows "insort_key f (g x) (map g xs) = map g (insort_key f x xs)"
  by (induction xs) (simp_all add: assms)

lemma sort_key_map_same_key:
  assumes "\<And>x. f (g x) = f x"
  shows "sort_key f (map g xs) = map g (sort_key f xs)"
proof (induction xs)
  case Nil
  show ?case by simp
next
  case (Cons a xs)
  have "insort_key f (g a) (map g (sort_key f xs)) = map g (insort_key f a (sort_key f xs))"
    by (rule insort_key_map_same_key) (rule assms)
  with Cons show ?case by simp
qed

lemma sort_key_append_cong:
  assumes "sort_key f xs = sort_key f ys"
  shows "sort_key f (xs @ zs) = sort_key f (ys @ zs)"
proof -
  have "sort_key f (xs @ zs) = sort_key f (sort_key f xs @ zs)"
    by (simp add: sort_key_sort_key_append)
  also have "\<dots> = sort_key f (sort_key f ys @ zs)" by (simp add: assms)
  also have "\<dots> = sort_key f (ys @ zs)" by (simp add: sort_key_sort_key_append)
  finally show ?thesis .
qed

lemma distinct_ids_sort_eq:
  assumes "sort_key createdAt ms = sort_key createdAt U"
    and "distinct (map message_id U)"
  shows "distinct (map message_id ms)"
proof -
  have "mset (sort_key createdAt ms) = mset (sort_key createdAt U)"
    using assms(1) by simp
  then have "mset ms = mset U" by simp
  then have "mset (map message_id ms) = mset (map message_id U)" by simp
  with assms(2) show ?thesis by (metis distinct_count_atmost_1 set_mset_mset)
qed

lemma docChange_sort_eq:
  assumes c: "\<And>d m. createdAt (u d m) = createdAt m"
    and s: "sort_key createdAt ms = sort_key createdAt U"
    and d: "distinct (map message_id U)"
  shows "sort_key createdAt (snd (docChange M u p (False, ms) x)) =
         sort_key createdAt (snd (docChange M u p (False, U) x))"
proof (cases "change_type x")
  case Added
  then show ?thesis
    by (simp add: docChange_Added sort_key_append_cong [OF s])
next
  case Modified
  let ?g = "\<lambda>m. if message_id m = doc_id x then u (doc_data x) m else m"
  have k: "\<And>m. createdAt (?g m) = createdAt m" by (simp add: c)
  from s d have d': "distinct (map message_id ms)" by (rule distinct_ids_sort_eq)
  have "sort_key createdAt (map ?g ms) = map ?g (sort_key createdAt ms)"
    by (rule sort_key_map_same_key) (rule k)
  also have "\<dots> = map ?g (sort_key createdAt U)" by (simp add: s)
  also have "\<dots> = sort_key createdAt (map ?g U)"
    by (rule sort_key_map_same_key [symmetric]) (rule k)
  finally show ?thesis
    using Modified by (simp add: docChange_Modified find_update_distinct d d')
next
  case Removed
  have "sort_key createdAt (filter (\<lambda>m. message_id m \<noteq> doc_id x) ms) =
        filter (\<lambda>m. message_id m \<noteq> doc_id x) (sort_key createdAt ms)"
    by (simp add: filter_sort)
  also have "\<dots> = filter (\<lambda>m. message_id m \<noteq> doc_id x) (sort_key createdAt U)"
    by (simp add: s)
  also have "\<dots> = sort_key createdAt (filter (\<lambda>m. message_id m \<noteq> doc_id x) U)"
    by (simp add: filter_sort)
  finally show ?thesis
    using Removed by (simp add: docChange_Removed)
qed

lemma replay_distinct_head:
  "replay_distinct M u p U cs \<Longrightarrow> distinct (map message_id U)"
  by (cases cs) simp_all

lemma changes_sort_eq:
  assumes c: "\<And>d m. createdAt (u d m) = createdAt m"
  shows "sort_key createdAt ms = sort_key createdAt U \<Longrightarrow> replay_distinct M u p U cs \<Longrightarrow>
         sort_key createdAt (foldl (\<lambda>ms c. snd (docChange M u p (False, ms) c)) ms cs) =
         sort_key createdAt (foldl (\<lambda>ms c. snd (docChange M u p (False, ms) c)) U cs)"
proof (induction cs arbitrary: ms U)
  case Nil
  then show ?case by simp
next
  case (Cons x cs)
  from Cons.prems(2) have d: "distinct (map message_id U)"
    and r: "replay_distinct M u p (snd (docChange M u p (False, U) x)) cs"
    by simp_all
  have "sort_key createdAt (snd (docChange M u p (False, ms) x)) =
        sort_key createdAt (snd (docChange M u p (False, U) x))"
    using c Cons.prems(1) d by (rule docChange_sort_eq)
  from Cons.IH [OF this r] show ?case by simp
qed

lemma replay_distinct_append:
  "replay_distinct M u p U (cs @ ds) =
   (replay_distinct M u p U cs \<and>
    replay_distinct M u p (foldl (\<lambda>ms c. snd (docChange M u p (False, ms) c)) U cs) ds)"
proof (induction cs arbitrary: U)
  case Nil
  show ?case by (auto dest: replay_distinct_head)
next
  case (Cons x cs)
  show ?case by (simp add: Cons.IH)
qed

lemma onSnapshot_callback_replay:
  assumes c: "\<And>d m. createdAt (u d m) = createdAt m"
    and r: "replay_distinct M u p U cs"
  shows "onSnapshot_callback M u p cs (sort_key createdAt U) =
         sort_key createdAt (foldl (\<lambda>ms c. snd (docChange M u p (False, ms) c)) U cs)"
proof -
  let ?step = "\<lambda>ms c. snd (docChange M u p (False, ms) c)"
  have e: "sort_key createdAt (foldl ?step (sort_key createdAt U) cs) =
           sort_key createdAt (foldl ?step U cs)"
    using c _ r by (rule changes_sort_eq) (simp add: sort_key_id_if_sorted)
  have srt: "sorted (map createdAt (onSnapshot_callback M u p cs (sort_key createdAt U)))"
    using c by (rule sorted_onSnapshot_callback) simp
  show ?thesis
  proof (cases "list_ex (\<lambda>c. change_type c = Added) cs")
    case True
    then have "onSnapshot_callback M u p cs (sort_key createdAt U) =
        sort_key createdAt (foldl ?step (sort_key createdAt U) cs)"
      by (simp add: onSnapshot_callback_def docChanges_def split: prod.split)
        (metis fst_conv snd_conv fst_foldl_docChange snd_foldl_docChange)
    with e show ?thesis by simp
  next
    case False
    then have o: "onSnapshot_callback M u p cs (sort_key createdAt U) =
        foldl ?step (sort_key createdAt U) cs"
      by (simp add: onSnapshot_callback_def docChanges_def split: prod.split)
        (metis fst_conv snd_conv fst_foldl_docChange snd_foldl_docChange)
    with srt have "sort_key createdAt (foldl ?step (sort_key createdAt U) cs) =
        foldl ?step (sort_key createdAt U) cs"
      by (simp add: sort_key_id_if_sorted)
    with o e show ?thesis by simp
  qed
qed

lemma onSnapshots_replay:
  assumes c: "\<And>d m. createdAt (u d m) = createdAt m"
  shows "replay_distinct M u p U (concat bs) \<Longrightarrow>
         onSnapshots M u p bs (sort_key createdAt U) =
         sort_key createdAt (foldl (\<lambda>ms c. snd (docChange M u p (False, ms) c)) U (concat bs))"
proof (induction bs arbitrary: U)
  case Nil
  show ?case by (simp add: onSnapshots_def)
next
  case (Cons cs bs)
  let ?step = "\<lambda>ms c. snd (docChange M u p (False, ms) c)"
  from Cons.prems have r1: "replay_distinct M u p U cs"
    and r2: "replay_distinct M u p (foldl ?step U cs) (concat bs)"
    by (simp_all add: replay_distinct_append)
  have "onSnapshots M u p (cs # bs) (sort_key createdAt U) =
        onSnapshots M u p bs (onSnapshot_callback M u p cs (sort_key createdAt U))"
    by (simp add: onSnapshots_def)
  also have "\<dots> = onSnapshots M u p bs (sort_key createdAt (foldl ?step U cs))"
    by (simp add: onSnapshot_callback_replay [OF c r1])
  also have "\<dots> = sort_key createdAt (foldl ?step (foldl ?step U cs) (concat bs))"
    using r2 by (rule Cons.IH)
  finally show ?case by simp
qed

lemma onSnapshots_replay_docChanges:
  assumes c: "\<And>d m. createdAt (u d m) = createdAt m"
    and r: "replay_distinct M u p [] (concat bs)"
  shows "onSnapshots M u p bs [] = sort_key createdAt (snd (docChanges M u p (concat bs) []))"
  using onSnapshots_replay [OF c, where M = M and p = p and U = "[]" and bs = bs] r
  by (simp add: docChanges_def snd_foldl_docChange)

text \<open>
  Claim C1. Whatever the batches of a feed are, the list held after each of them is
  sorted by \<open>createdAt\<close>, non-decreasing: the list is empty when the feed is attached,
  and a batch applied to a sorted list leaves a sorted list. The sort of a batch keeps
  the messages of one timestamp in the order they have in the list the changes built
  (the messages held before, then the added ones in the order of their arrival); and
  when the feed only adds, the list is the stable sort of all the messages in the order
  of their arrival. For a feed of any changes that keeps the ids distinct, the list is
  the stable sort of the list that the changes alone build, without any sort: the
  messages of one timestamp stand in the order of their arrival. The list is read by the
  view after the callback has returned, so the list before the sort is never seen. The
  method \<^verbatim>\<open>update\<close> of Message is assumed to leave \<open>createdAt\<close> as it is.
\<close>

theorem messages_sorted_stable:
  assumes "\<And>d m. createdAt (update d m) = createdAt m"
  shows "sorted (map createdAt (onSnapshots Message update path batches [])) \<and>
         (sorted (map createdAt ms) \<longrightarrow>
            sorted (map createdAt (onSnapshot_callback Message update path changes ms))) \<and>
         filter (\<lambda>m. createdAt m = t) (onSnapshot_callback Message update path changes ms) =
           filter (\<lambda>m. createdAt m = t) (snd (docChanges Message update path changes ms)) \<and>
         ((\<forall>cs \<in> set batches. \<forall>c \<in> set cs. change_type c = Added) \<longrightarrow>
            onSnapshots Message update path batches [] =
              sort_key createdAt
                (map (\<lambda>c. Message (doc_data c) path (doc_id c)) (concat batches))) \<and>
         (replay_distinct Message update path [] (concat batches) \<longrightarrow>
            onSnapshots Message update path batches [] =
              sort_key createdAt (snd (docChanges Message update path (concat batches) [])))"
proof (intro conjI impI)
  show "sorted (map createdAt (onSnapshots Message update path batches []))"
    by (rule sorted_onSnapshots) (simp_all add: assms)
next
  assume "sorted (map createdAt ms)"
  then show "sorted (map createdAt (onSnapshot_callback Message update path changes ms))"
    by (rule sorted_onSnapshot_callback [rotated]) (simp add: assms)
next
  show "filter (\<lambda>m. createdAt m = t) (onSnapshot_callback Message update path changes ms) =
        filter (\<lambda>m. createdAt m = t) (snd (docChanges Message update path changes ms))"
    by (rule stable_onSnapshot_callback)
next
  assume a: "\<forall>cs \<in> set batches. \<forall>c \<in> set cs. change_type c = Added"
  have "onSnapshots Message update path batches (sort_key createdAt []) =
        sort_key createdAt ([] @ map (\<lambda>c. Message (doc_data c) path (doc_id c)) (concat batches))"
    using a by (rule onSnapshots_added)
  then show "onSnapshots Message update path batches [] =
        sort_key createdAt (map (\<lambda>c. Message (doc_data c) path (doc_id c)) (concat batches))"
    by simp
next
  assume "replay_distinct Message update path [] (concat batches)"
  then show "onSnapshots Message update path batches [] =
        sort_key createdAt (snd (docChanges Message update path (concat batches) []))"
    by (rule onSnapshots_replay_docChanges [rotated]) (rule assms)
qed

theorem messages_sorted_stable_witness:
  "(\<forall>d m. createdAt (update_ex d m) = createdAt m) \<and>
   list_all (list_all (\<lambda>c. change_type c = Added))
     [[change_ex Added ''a'' 5 ''x'', change_ex Added ''b'' 3 ''y''],
      [change_ex Added ''c'' 5 ''z'', change_ex Added ''d'' 3 ''v'']] \<and>
   sorted (map createdAt (onSnapshots Message_ex update_ex ''p''
          [[change_ex Added ''a'' 5 ''x'', change_ex Added ''b'' 3 ''y''],
           [change_ex Added ''c'' 5 ''z'', change_ex Added ''d'' 3 ''v'']] [])) \<and>
   map message_id (onSnapshots Message_ex update_ex ''p''
          [[change_ex Added ''a'' 5 ''x'', change_ex Added ''b'' 3 ''y''],
           [change_ex Added ''c'' 5 ''z'', change_ex Added ''d'' 3 ''v'']] []) =
     [''b'', ''d'', ''a'', ''c''] \<and>
   replay_distinct Message_ex update_ex ''p'' []
     (concat [[change_ex Added ''a'' 5 ''x'', change_ex Added ''b'' 3 ''y''],
              [change_ex Added ''c'' 5 ''z'', change_ex Modified ''a'' 9 ''w'',
               change_ex Removed ''b'' 0 '''', change_ex Added ''d'' 3 ''v'']]) \<and>
   map (\<lambda>m. (message_id m, createdAt m, payload m)) (onSnapshots Message_ex update_ex ''p''
          [[change_ex Added ''a'' 5 ''x'', change_ex Added ''b'' 3 ''y''],
           [change_ex Added ''c'' 5 ''z'', change_ex Modified ''a'' 9 ''w'',
            change_ex Removed ''b'' 0 '''', change_ex Added ''d'' 3 ''v'']] []) =
     [(''d'', 3, ''v''), (''a'', 5, ''w''), (''c'', 5, ''z'')]"
proof -
  have h: "\<And>d m. createdAt (update_ex d m) = createdAt m"
    by (simp add: update_ex_def)
  have a: "\<forall>cs \<in> set [[change_ex Added ''a'' 5 ''x'', change_ex Added ''b'' 3 ''y''],
                [change_ex Added ''c'' 5 ''z'', change_ex Added ''d'' 3 ''v'']].
      \<forall>c \<in> set cs. change_type c = Added"
    by (simp add: change_ex_def)
  have r: "replay_distinct Message_ex update_ex ''p'' []
     (concat [[change_ex Added ''a'' 5 ''x'', change_ex Added ''b'' 3 ''y''],
              [change_ex Added ''c'' 5 ''z'', change_ex Modified ''a'' 9 ''w'',
               change_ex Removed ''b'' 0 '''', change_ex Added ''d'' 3 ''v'']])"
    by (simp add: change_ex_def Message_ex_def update_ex_def docChange_def)
  from messages_sorted_stable [of update_ex Message_ex "''p''"
      "[[change_ex Added ''a'' 5 ''x'', change_ex Added ''b'' 3 ''y''],
        [change_ex Added ''c'' 5 ''z'', change_ex Added ''d'' 3 ''v'']]" "[]" "[]" 0, OF h] a
  have 1: "sorted (map createdAt (onSnapshots Message_ex update_ex ''p''
          [[change_ex Added ''a'' 5 ''x'', change_ex Added ''b'' 3 ''y''],
           [change_ex Added ''c'' 5 ''z'', change_ex Added ''d'' 3 ''v'']] [])) \<and>
     map message_id (onSnapshots Message_ex update_ex ''p''
          [[change_ex Added ''a'' 5 ''x'', change_ex Added ''b'' 3 ''y''],
           [change_ex Added ''c'' 5 ''z'', change_ex Added ''d'' 3 ''v'']] []) =
     [''b'', ''d'', ''a'', ''c'']"
    by (simp add: change_ex_def Message_ex_def)
  from messages_sorted_stable [of update_ex Message_ex "''p''"
      "[[change_ex Added ''a'' 5 ''x'', change_ex Added ''b'' 3 ''y''],
        [change_ex Added ''c'' 5 ''z'', change_ex Modified ''a'' 9 ''w'',
         change_ex Removed ''b'' 0 '''', change_ex Added ''d'' 3 ''v'']]" "[]" "[]" 0, OF h] r
  have 2: "map (\<lambda>m. (message_id m, createdAt m, payload m)) (onSnapshots Message_ex update_ex ''p''
          [[change_ex Added ''a'' 5 ''x'', change_ex Added ''b'' 3 ''y''],
           [change_ex Added ''c'' 5 ''z'', change_ex Modified ''a'' 9 ''w'',
            change_ex Removed ''b'' 0 '''', change_ex Added ''d'' 3 ''v'']] []) =
     [(''d'', 3, ''v''), (''a'', 5, ''w''), (''c'', 5, ''z'')]"
    by (simp add: change_ex_def Message_ex_def update_ex_def docChanges_def docChange_def)
  from h a r 1 2 show ?thesis by (simp add: list_all_iff)
qed


section \<open>Changes of type modified\<close>

lemma length_find_update: "length (find_update u i d ms) = length ms"
  by (induction ms) simp_all

lemma message_id_find_update:
  assumes "\<And>d m. message_id (u d m) = message_id m"
  shows "map message_id (find_update u i d ms) = map message_id ms"
  by (induction ms) (simp_all add: assms)

lemma find_update_absent:
  "find (\<lambda>m. message_id m = i) ms = None \<Longrightarrow> find_update u i d ms = ms"
  by (induction ms) (simp_all split: if_splits)

lemma find_update_present:
  "find (\<lambda>m. message_id m = i) ms = Some m \<Longrightarrow>
   \<exists>k<length ms. ms ! k = m \<and> (\<forall>j<k. message_id (ms ! j) \<noteq> i) \<and>
                  find_update u i d ms = ms[k := u d m]"
proof (induction ms)
  case Nil
  then show ?case by simp
next
  case (Cons a ms)
  show ?case
  proof (cases "message_id a = i")
    case True
    with Cons.prems have "a = m" by simp
    with True have "(a # ms) ! 0 = m \<and> (\<forall>j<0. message_id ((a # ms) ! j) \<noteq> i) \<and>
        find_update u i d (a # ms) = (a # ms)[0 := u d m]"
      by simp
    then show ?thesis by blast
  next
    case False
    with Cons.prems have "find (\<lambda>m. message_id m = i) ms = Some m" by simp
    from Cons.IH [OF this] obtain k where k: "k < length ms" "ms ! k = m"
      "\<forall>j<k. message_id (ms ! j) \<noteq> i" "find_update u i d ms = ms[k := u d m]"
      by blast
    have "\<forall>j<Suc k. message_id ((a # ms) ! j) \<noteq> i"
    proof (intro allI impI)
      fix j assume "j < Suc k"
      then show "message_id ((a # ms) ! j) \<noteq> i"
        using False k(3) by (cases j) simp_all
    qed
    with k False have "Suc k < length (a # ms) \<and> (a # ms) ! Suc k = m \<and>
        (\<forall>j<Suc k. message_id ((a # ms) ! j) \<noteq> i) \<and>
        find_update u i d (a # ms) = (a # ms)[Suc k := u d m]"
      by simp
    then show ?thesis by blast
  qed
qed

lemma find_after_removed:
  "find (\<lambda>m. message_id m = i) (filter (\<lambda>m. message_id m \<noteq> i) ms) = None"
  by (simp add: find_None_iff)

lemma onSnapshot_callback_single_Modified:
  "change_type c = Modified \<Longrightarrow>
   onSnapshot_callback M u p [c] ms = find_update u (doc_id c) (doc_data c) ms"
  by (simp add: onSnapshot_callback_def docChanges_def docChange_Modified)

text \<open>
  Claim C4. A change of type \<open>modified\<close> leaves \<open>sortNeeded\<close>, the length of the list and
  the ids at every position as they are. If a message with the id of the change is
  held, the first such message is replaced, where it stands, by its update, and nothing
  else changes; if none is held, the list is unchanged. After a change of type
  \<open>removed\<close> for the same id no message with the id is held, and the \<open>modified\<close> change
  does nothing. A batch of this one change is not sorted again. The method \<^verbatim>\<open>update\<close>
  of Message is assumed to leave the id as it is.
\<close>

theorem modified_delta:
  assumes "\<And>d m. message_id (update d m) = message_id m"
    and "change_type change = Modified"
  shows "fst (docChange Message update path (b, ms) change) = b \<and>
         length (snd (docChange Message update path (b, ms) change)) = length ms \<and>
         map message_id (snd (docChange Message update path (b, ms) change)) =
           map message_id ms \<and>
         (case find (\<lambda>m. message_id m = doc_id change) ms of
            None \<Rightarrow> snd (docChange Message update path (b, ms) change) = ms
          | Some m \<Rightarrow>
              (\<exists>k<length ms. ms ! k = m \<and> (\<forall>j<k. message_id (ms ! j) \<noteq> doc_id change) \<and>
                 snd (docChange Message update path (b, ms) change) =
                   ms[k := update (doc_data change) m])) \<and>
         (\<forall>r. change_type r = Removed \<and> doc_id r = doc_id change \<longrightarrow>
              docChange Message update path (docChange Message update path (b, ms) r) change =
                docChange Message update path (b, ms) r \<and>
              doc_id change \<notin> message_id ` set (snd (docChange Message update path (b, ms) r))) \<and>
         onSnapshot_callback Message update path [change] ms =
           snd (docChange Message update path (b, ms) change)"
proof -
  have dc: "docChange Message update path (b, ms) change =
        (b, find_update update (doc_id change) (doc_data change) ms)"
    using assms(2) by (rule docChange_Modified)
  have c1: "fst (docChange Message update path (b, ms) change) = b"
    by (simp add: dc)
  have c2: "length (snd (docChange Message update path (b, ms) change)) = length ms"
    by (simp add: dc length_find_update)
  have "map message_id (find_update update (doc_id change) (doc_data change) ms) =
        map message_id ms"
    by (rule message_id_find_update) (rule assms(1))
  then have c3: "map message_id (snd (docChange Message update path (b, ms) change)) =
        map message_id ms"
    by (simp add: dc)
  have c4: "case find (\<lambda>m. message_id m = doc_id change) ms of
            None \<Rightarrow> snd (docChange Message update path (b, ms) change) = ms
          | Some m \<Rightarrow>
              (\<exists>k<length ms. ms ! k = m \<and> (\<forall>j<k. message_id (ms ! j) \<noteq> doc_id change) \<and>
                 snd (docChange Message update path (b, ms) change) =
                   ms[k := update (doc_data change) m])"
    by (simp add: dc find_update_absent find_update_present split: option.split)
  have c5: "\<forall>r. change_type r = Removed \<and> doc_id r = doc_id change \<longrightarrow>
              docChange Message update path (docChange Message update path (b, ms) r) change =
                docChange Message update path (b, ms) r \<and>
              doc_id change \<notin> message_id ` set (snd (docChange Message update path (b, ms) r))"
  proof (intro allI impI)
    fix r :: "'a DocumentChange"
    assume r: "change_type r = Removed \<and> doc_id r = doc_id change"
    then have rm: "docChange Message update path (b, ms) r =
        (b, filter (\<lambda>m. message_id m \<noteq> doc_id change) ms)"
      by (simp add: docChange_Removed)
    have "find_update update (doc_id change) (doc_data change)
            (filter (\<lambda>m. message_id m \<noteq> doc_id change) ms) =
          filter (\<lambda>m. message_id m \<noteq> doc_id change) ms"
      by (rule find_update_absent) (rule find_after_removed)
    then show "docChange Message update path (docChange Message update path (b, ms) r) change =
                docChange Message update path (b, ms) r \<and>
              doc_id change \<notin> message_id ` set (snd (docChange Message update path (b, ms) r))"
      using assms(2) by (auto simp: rm docChange_Modified)
  qed
  have c6: "onSnapshot_callback Message update path [change] ms =
        snd (docChange Message update path (b, ms) change)"
    using assms(2) by (simp add: dc onSnapshot_callback_single_Modified)
  from c1 c2 c3 c4 c5 c6 show ?thesis by blast
qed

theorem modified_delta_witness:
  "(\<forall>d m. message_id (update_ex d m) = message_id m) \<and>
   change_type (change_ex Modified ''b'' 9 ''new'') = Modified \<and>
   change_type (change_ex Removed ''b'' 0 '''') = Removed \<and>
   find (\<lambda>m. message_id m = ''b'') [message_ex ''a'' 1 ''x'', message_ex ''b'' 2 ''y''] =
     Some (message_ex ''b'' 2 ''y'') \<and>
   snd (docChange Message_ex update_ex ''p''
          (False, [message_ex ''a'' 1 ''x'', message_ex ''b'' 2 ''y''])
          (change_ex Modified ''b'' 9 ''new'')) =
     [message_ex ''a'' 1 ''x'', message_ex ''b'' 2 ''new''] \<and>
   docChange Message_ex update_ex ''p''
     (docChange Message_ex update_ex ''p''
        (False, [message_ex ''a'' 1 ''x'', message_ex ''b'' 2 ''y''])
        (change_ex Removed ''b'' 0 ''''))
     (change_ex Modified ''b'' 9 ''new'') =
     (False, [message_ex ''a'' 1 ''x''])"
proof -
  have h: "\<And>d m. message_id (update_ex d m) = message_id m"
    by (simp add: update_ex_def)
  have t: "change_type (change_ex Modified ''b'' 9 ''new'') = Modified"
    by (simp add: change_ex_def)
  from modified_delta [of update_ex "change_ex Modified ''b'' 9 ''new''" Message_ex "''p''"
      False "[message_ex ''a'' 1 ''x'', message_ex ''b'' 2 ''y'']", OF h t]
  show ?thesis
    by (simp add: h change_ex_def message_ex_def Message_ex_def update_ex_def docChange_def)
qed


section \<open>Switching the path of the messages\<close>

lemma component_inv_init: "component_inv component_init"
  by (simp add: component_inv_def component_init_def)

lemma listeners_subscribeMessages:
  assumes "component_inv s"
  shows "listeners (subscribeMessages v s) =
         (case v of None \<Rightarrow> [] | Some p \<Rightarrow> if truthy p then [(next_listener s, p)] else [])"
proof -
  have f: "\<And>h. unsubMessages s = Some h \<Longrightarrow> filter (\<lambda>l. fst l \<noteq> h) (listeners s) = []"
    using assms by (auto simp: component_inv_def list_all_iff filter_empty_conv)
  have n: "unsubMessages s = None \<Longrightarrow> listeners s = []"
    using assms by (cases "listeners s") (auto simp: component_inv_def)
  show ?thesis
    by (cases "unsubMessages s"; cases v) (simp_all add: subscribeMessages_def f n)
qed

lemma listeners_set_messagesPath:
  assumes "component_inv s"
  shows "listeners (set_messagesPath v s) =
         (case v of None \<Rightarrow> [] | Some p \<Rightarrow> if truthy p then [(next_listener s, p)] else [])"
proof -
  have "component_inv (s\<lparr>messages := [], messagesDates := []\<rparr>)"
    using assms by (simp add: component_inv_def)
  from listeners_subscribeMessages [OF this, of v] show ?thesis
    by (cases v) (simp_all add: set_messagesPath_def)
qed

lemma messages_subscribeMessages: "messages (subscribeMessages v s) = messages s"
  by (cases "unsubMessages s"; cases v) (simp_all add: subscribeMessages_def Let_def)

lemma messages_set_messagesPath: "messages (set_messagesPath v s) = []"
  by (simp add: set_messagesPath_def messages_subscribeMessages)

lemma component_inv_set_messagesPath:
  assumes "component_inv s"
  shows "component_inv (set_messagesPath v s)"
proof -
  have l: "listeners (set_messagesPath v s) =
         (case v of None \<Rightarrow> [] | Some p \<Rightarrow> if truthy p then [(next_listener s, p)] else [])"
    using assms by (rule listeners_set_messagesPath)
  have u: "\<And>p. v = Some p \<Longrightarrow> truthy p \<Longrightarrow>
      unsubMessages (set_messagesPath v s) = Some (next_listener s) \<and>
      next_listener (set_messagesPath v s) = Suc (next_listener s)"
    by (cases "unsubMessages s") (simp_all add: set_messagesPath_def subscribeMessages_def)
  show ?thesis
    unfolding component_inv_def l using u by (cases v) auto
qed

lemma component_inv_snapshot:
  "component_inv s \<Longrightarrow> component_inv (snapshot M u h cs s)"
  by (cases "map_of (listeners s) h") (simp_all add: snapshot_def component_inv_def)

lemma old_listener_fresh:
  assumes "component_inv s" and "map_of (listeners s) h = Some p"
  shows "h < next_listener s"
proof -
  from assms(2) have "(h, p) \<in> set (listeners s)" by (rule map_of_SomeD)
  with assms(1) show ?thesis by (auto simp: component_inv_def list_all_iff)
qed

text \<open>
  Claim C9. In a state the component reaches, setting the input \<^verbatim>\<open>messagesPath\<close> empties
  the held list and removes every listener that was alive; the only listener alive
  afterwards is the new one, on the new path, when the path is a non-empty string. A
  batch delivered to a listener of before the switch changes nothing, and a batch that
  changes anything is a batch of the new listener, applied to the empty list. The
  invariant holds again afterwards.
\<close>

theorem messagesPath_switch:
  assumes "component_inv s"
  shows "messages (set_messagesPath v s) = [] \<and>
         listeners (set_messagesPath v s) =
           (case v of None \<Rightarrow> [] | Some p \<Rightarrow> if truthy p then [(next_listener s, p)] else []) \<and>
         (\<forall>l \<in> set (listeners s). l \<notin> set (listeners (set_messagesPath v s))) \<and>
         (\<forall>h changes. map_of (listeners s) h \<noteq> None \<longrightarrow>
            snapshot Message update h changes (set_messagesPath v s) = set_messagesPath v s) \<and>
         (\<forall>h changes.
            snapshot Message update h changes (set_messagesPath v s) \<noteq> set_messagesPath v s \<longrightarrow>
            (\<exists>p. v = Some p \<and> truthy p \<and> h = next_listener s \<and>
               messages (snapshot Message update h changes (set_messagesPath v s)) =
                 onSnapshot_callback Message update p changes [])) \<and>
         component_inv (set_messagesPath v s)"
proof -
  let ?s' = "set_messagesPath v s"
  have l: "listeners ?s' =
         (case v of None \<Rightarrow> [] | Some p \<Rightarrow> if truthy p then [(next_listener s, p)] else [])"
    using assms by (rule listeners_set_messagesPath)
  have m: "messages ?s' = []" by (rule messages_set_messagesPath)
  have fresh: "\<And>l. l \<in> set (listeners s) \<Longrightarrow> fst l < next_listener s"
    using assms by (auto simp: component_inv_def list_all_iff)
  have c3: "\<forall>l \<in> set (listeners s). l \<notin> set (listeners ?s')"
  proof
    fix x assume "x \<in> set (listeners s)"
    from fresh [OF this] show "x \<notin> set (listeners ?s')"
      unfolding l by (cases v) (auto split: if_splits)
  qed
  have c4: "\<forall>h changes. map_of (listeners s) h \<noteq> None \<longrightarrow>
            snapshot Message update h changes ?s' = ?s'"
  proof (intro allI impI)
    fix h changes assume "map_of (listeners s) h \<noteq> None"
    then obtain p where "map_of (listeners s) h = Some p" by blast
    from old_listener_fresh [OF assms this] have "h \<noteq> next_listener s" by simp
    then have "map_of (listeners ?s') h = None"
      unfolding l by (cases v) simp_all
    then show "snapshot Message update h changes ?s' = ?s'"
      by (simp add: snapshot_def)
  qed
  have c5: "\<forall>h changes. snapshot Message update h changes ?s' \<noteq> ?s' \<longrightarrow>
            (\<exists>p. v = Some p \<and> truthy p \<and> h = next_listener s \<and>
               messages (snapshot Message update h changes ?s') =
                 onSnapshot_callback Message update p changes [])"
  proof (intro allI impI)
    fix h changes assume d: "snapshot Message update h changes ?s' \<noteq> ?s'"
    then have "map_of (listeners ?s') h \<noteq> None"
      by (cases "map_of (listeners ?s') h") (auto simp: snapshot_def)
    then obtain q where q: "map_of (listeners ?s') h = Some q" by blast
    then obtain p where p: "v = Some p" "truthy p" "h = next_listener s" "q = p"
      unfolding l by (cases v) (auto split: if_splits)
    have "messages (snapshot Message update h changes ?s') =
          onSnapshot_callback Message update p changes []"
      using q p(4) m by (simp add: snapshot_def)
    with p show "\<exists>p. v = Some p \<and> truthy p \<and> h = next_listener s \<and>
               messages (snapshot Message update h changes ?s') =
                 onSnapshot_callback Message update p changes []"
      by blast
  qed
  have c6: "component_inv ?s'" using assms by (rule component_inv_set_messagesPath)
  from m l c3 c4 c5 c6 show ?thesis by blast
qed

theorem messagesPath_switch_witness:
  "component_inv component_ex \<and>
   messages component_ex = [Message_ex (5, ''x'') ''channels/c1/messages'' ''a''] \<and>
   listeners component_ex = [(0, ''channels/c1/messages'')] \<and>
   map_of (listeners component_ex) 0 \<noteq> None \<and>
   messages (set_messagesPath (Some ''chats/c2/messages'') component_ex) = [] \<and>
   listeners (set_messagesPath (Some ''chats/c2/messages'') component_ex) =
     [(1, ''chats/c2/messages'')] \<and>
   snapshot Message_ex update_ex 0 [change_ex Added ''b'' 6 ''y'']
     (set_messagesPath (Some ''chats/c2/messages'') component_ex) =
     set_messagesPath (Some ''chats/c2/messages'') component_ex"
proof -
  have i: "component_inv component_ex"
    unfolding component_ex_def
    by (intro component_inv_snapshot component_inv_set_messagesPath component_inv_init)
  have e: "listeners component_ex = [(0, ''channels/c1/messages'')] \<and>
           next_listener component_ex = 1 \<and>
           messages component_ex = [Message_ex (5, ''x'') ''channels/c1/messages'' ''a'']"
    by (simp add: component_ex_def snapshot_def set_messagesPath_def subscribeMessages_def
        component_init_def truthy_def Let_def onSnapshot_callback_def docChanges_def docChange_def
        change_ex_def message_ex_def Message_ex_def)
  from messagesPath_switch [OF i, of "Some ''chats/c2/messages''" Message_ex update_ex] e
  show ?thesis
    by (simp add: i truthy_def)
qed


section \<open>The thread\<close>

text \<open>
  Claim C7, as amended. In the later listing, for a message that is not answerable
  \<^verbatim>\<open>setThreadViewObject\<close> returns the state it was given: the thread object and its path
  are as before and nothing is sent to \<open>changeSubject\<close>; for an answerable message the
  message and its \<open>answerPath\<close> are stored and \<open>threadViewObjectSet\<close> is sent. In the
  earlier listing \<^verbatim>\<open>setThreadViewObject\<close> stores every message and its \<open>answerPath\<close> and
  sends the string \<^verbatim>\<open>message\<close>, answerable or not.
\<close>

theorem setThreadViewObject_answerable:
  "(\<not> answerable message \<longrightarrow> setThreadViewObject message s = s) \<and>
   (answerable message \<longrightarrow>
      u_threadViewObject (setThreadViewObject message s) = Some message \<and>
      u_threadViewPath (setThreadViewObject message s) = Some (answerPath message) \<and>
      changeSubject (setThreadViewObject message s) = changeSubject s @ [threadViewObjectSet]) \<and>
   e_threadViewObject (earlier_setThreadViewObject message e) = Some message \<and>
   e_threadViewPath (earlier_setThreadViewObject message e) = Some (answerPath message) \<and>
   e_changeSubject (earlier_setThreadViewObject message e) = e_changeSubject e @ [''message'']"
  by (simp add: setThreadViewObject_def earlier_setThreadViewObject_def)

theorem setThreadViewObject_answerable_witness:
  "\<not> answerable ((message_ex ''a'' 5 ''x'')\<lparr>answerable := False\<rparr>) \<and>
   setThreadViewObject ((message_ex ''a'' 5 ''x'')\<lparr>answerable := False\<rparr>)
     (setThreadViewObject (message_ex ''b'' 6 ''y'') (app_ex None None)) =
     setThreadViewObject (message_ex ''b'' 6 ''y'') (app_ex None None) \<and>
   answerable (message_ex ''b'' 6 ''y'') \<and>
   u_threadViewObject (setThreadViewObject (message_ex ''b'' 6 ''y'') (app_ex None None)) =
     Some (message_ex ''b'' 6 ''y'') \<and>
   u_threadViewPath (setThreadViewObject (message_ex ''b'' 6 ''y'') (app_ex None None)) =
     Some ''p/b/answers'' \<and>
   changeSubject (setThreadViewObject (message_ex ''b'' 6 ''y'') (app_ex None None)) =
     [threadViewObjectSet] \<and>
   e_threadViewPath (earlier_setThreadViewObject (message_ex ''b'' 6 ''y'') earlier_ex) =
     Some ''p/b/answers'' \<and>
   e_changeSubject (earlier_setThreadViewObject (message_ex ''b'' 6 ''y'') earlier_ex) =
     [''message'']"
  using setThreadViewObject_answerable
      [of "(message_ex ''a'' 5 ''x'')\<lparr>answerable := False\<rparr>"
          "setThreadViewObject (message_ex ''b'' 6 ''y'') (app_ex None None)" earlier_ex]
    setThreadViewObject_answerable [of "message_ex ''b'' 6 ''y''" "app_ex None None" earlier_ex]
  by (simp add: message_ex_def Message_ex_def app_ex_def earlier_ex_def)

text \<open>
  Claim C7 as stated fails on the earlier listing: a message that is not answerable
  becomes the thread object there, and \<^verbatim>\<open>message\<close> is sent.
\<close>

theorem earlier_thread_not_answerable:
  "\<not> answerable ((message_ex ''a'' 5 ''x'')\<lparr>answerable := False\<rparr>) \<and>
   e_threadViewObject earlier_ex = None \<and>
   e_threadViewObject
     (earlier_setThreadViewObject ((message_ex ''a'' 5 ''x'')\<lparr>answerable := False\<rparr>) earlier_ex) =
     Some ((message_ex ''a'' 5 ''x'')\<lparr>answerable := False\<rparr>) \<and>
   e_threadViewPath
     (earlier_setThreadViewObject ((message_ex ''a'' 5 ''x'')\<lparr>answerable := False\<rparr>) earlier_ex) =
     Some ''p/a/answers'' \<and>
   e_changeSubject
     (earlier_setThreadViewObject ((message_ex ''a'' 5 ''x'')\<lparr>answerable := False\<rparr>) earlier_ex) =
     [''message'']"
  by (simp add: earlier_setThreadViewObject_def earlier_ex_def message_ex_def Message_ex_def)


section \<open>The view object and its path\<close>








section \<open>The search context\<close>

lemma getSearchContext_Channel:
  "chatViewObject s = Channel ch \<Longrightarrow> getSearchContext s = ''in:#'' @ channel_name ch"
  by (simp add: getSearchContext_def)

lemma isSelfChat_partner:
  assumes "chatViewObject s = Chat c"
    and "find (\<lambda>i. Some i \<noteq> map_option user_id (currentUser s)) (chat_memberIDs c) = Some i"
  shows "\<not> isSelfChat s"
proof -
  from assms(2) have "i \<in> set (chat_memberIDs c)"
    and "Some i \<noteq> map_option user_id (currentUser s)"
    by (auto simp: find_Some_iff)
  then have "\<not> list_all (\<lambda>i. Some i = map_option user_id (currentUser s)) (chat_memberIDs c)"
    by (auto simp: list_all_iff)
  with assms(1) show ?thesis
    by (cases "currentUser s") (simp_all add: isSelfChat_def)
qed

lemma getSearchContext_partner:
  assumes "chatViewObject s = Chat c"
    and "find (\<lambda>i. Some i \<noteq> map_option user_id (currentUser s)) (chat_memberIDs c) = Some i"
  shows "getSearchContext s =
         (case (if i = '''' then None else getUserByID s i) of
            None \<Rightarrow> ''''
          | Some u \<Rightarrow> if user_name u = '''' then '''' else ''in:@'' @ user_name u)"
proof -
  have n: "getChatPartnerName s =
      (if i = '''' then None else map_option user_name (getUserByID s i))"
    using assms by (simp add: getChatPartnerName_def truthy_def)
  have "\<not> isSelfChat s" using assms by (rule isSelfChat_partner)
  then show ?thesis
    using assms(1)
    by (cases "getUserByID s i")
      (simp_all add: getSearchContext_def n truthy_opt_def truthy_def template_def)
qed

lemma getSearchContext_no_partner:
  assumes "chatViewObject s = Chat c"
    and "find (\<lambda>i. Some i \<noteq> map_option user_id (currentUser s)) (chat_memberIDs c) = None"
  shows "getSearchContext s =
         (case currentUser s of None \<Rightarrow> '''' | Some me \<Rightarrow> ''in:@'' @ user_name me)"
proof -
  have n: "getChatPartnerName s = None"
    using assms by (simp add: getChatPartnerName_def)
  from assms(2) have "list_all (\<lambda>i. Some i = map_option user_id (currentUser s)) (chat_memberIDs c)"
    by (auto simp: find_None_iff list_all_iff)
  then have "isSelfChat s = (currentUser s \<noteq> None)"
    using assms(1) by (cases "currentUser s") (simp_all add: isSelfChat_def)
  then show ?thesis
    using assms(1)
    by (cases "currentUser s")
      (simp_all add: getSearchContext_def n truthy_opt_def template_def)
qed

lemma chat_view_ex_simps:
  "chatViewObject (chat_view_ex members cur) =
     Chat (chat_ex 5 ''c1'' members ''chats/c1/messages'')"
  "currentUser (chat_view_ex members cur) = cur"
  "getUserByID (chat_view_ex members cur) = users_ex"
  "chat_memberIDs (chat_ex 5 ''c1'' members ''chats/c1/messages'') = members"
  by (simp_all add: chat_view_ex_def app_ex_def chatViewObject_def chat_ex_def)

lemma users_ex_simps:
  "users_ex ''u1'' = Some (user_ex ''u1'' ''alice'')"
  "users_ex ''u2'' = Some (user_ex ''u2'' ''bob'')"
  "users_ex ''u3'' = Some (user_ex ''u3'' '''')"
  "users_ex ''u9'' = None"
  by (simp_all add: users_ex_def)

lemma user_ex_simps: "user_id (user_ex i n) = i" "user_name (user_ex i n) = n"
  by (simp_all add: user_ex_def)

text \<open>
  Claim C5, as amended. For a channel the context is \<^verbatim>\<open>in:#\<close> and its name. For a chat,
  let the partner be the first member id that is not the id of the current user. If
  there is one, it is not the empty string, the directory has a user for it and the name
  of that user is not empty, the context is \<^verbatim>\<open>in:@\<close> and that name. If there is a current
  user and every member id is its id, the context is \<^verbatim>\<open>in:@\<close> and the name of the current
  user. If there is a partner and it is the empty string, or the directory has no user
  for it, or the name is empty, the context is the empty string; so it is for a chat
  without members when there is no current user.
\<close>

theorem getSearchContext_cases:
  "(chatViewObject s = Channel ch \<longrightarrow> getSearchContext s = ''in:#'' @ channel_name ch) \<and>
   (chatViewObject s = Chat c \<and>
    find (\<lambda>i. Some i \<noteq> map_option user_id (currentUser s)) (chat_memberIDs c) = Some i \<and>
    i \<noteq> '''' \<and> getUserByID s i = Some u \<and> user_name u \<noteq> '''' \<longrightarrow>
      getSearchContext s = ''in:@'' @ user_name u) \<and>
   (chatViewObject s = Chat c \<and> currentUser s = Some me \<and>
    (\<forall>i \<in> set (chat_memberIDs c). i = user_id me) \<longrightarrow>
      getSearchContext s = ''in:@'' @ user_name me) \<and>
   (chatViewObject s = Chat c \<and>
    find (\<lambda>i. Some i \<noteq> map_option user_id (currentUser s)) (chat_memberIDs c) = Some i \<and>
    (i = '''' \<or> getUserByID s i = None \<or>
     (\<exists>u. getUserByID s i = Some u \<and> user_name u = '''')) \<longrightarrow>
      getSearchContext s = '''') \<and>
   (chatViewObject s = Chat c \<and> currentUser s = None \<and> chat_memberIDs c = [] \<longrightarrow>
      getSearchContext s = '''')"
proof (intro conjI impI)
  assume "chatViewObject s = Channel ch"
  then show "getSearchContext s = ''in:#'' @ channel_name ch"
    by (rule getSearchContext_Channel)
next
  assume a: "chatViewObject s = Chat c \<and>
    find (\<lambda>i. Some i \<noteq> map_option user_id (currentUser s)) (chat_memberIDs c) = Some i \<and>
    i \<noteq> '''' \<and> getUserByID s i = Some u \<and> user_name u \<noteq> ''''"
  then have v: "chatViewObject s = Chat c"
    and f: "find (\<lambda>i. Some i \<noteq> map_option user_id (currentUser s)) (chat_memberIDs c) = Some i"
    by simp_all
  from getSearchContext_partner [OF v f] a
  show "getSearchContext s = ''in:@'' @ user_name u" by simp
next
  assume a: "chatViewObject s = Chat c \<and> currentUser s = Some me \<and>
    (\<forall>i \<in> set (chat_memberIDs c). i = user_id me)"
  then have v: "chatViewObject s = Chat c"
    and f: "find (\<lambda>i. Some i \<noteq> map_option user_id (currentUser s)) (chat_memberIDs c) = None"
    by (simp_all add: find_None_iff)
  from getSearchContext_no_partner [OF v f] a
  show "getSearchContext s = ''in:@'' @ user_name me" by simp
next
  assume a: "chatViewObject s = Chat c \<and>
    find (\<lambda>i. Some i \<noteq> map_option user_id (currentUser s)) (chat_memberIDs c) = Some i \<and>
    (i = '''' \<or> getUserByID s i = None \<or>
     (\<exists>u. getUserByID s i = Some u \<and> user_name u = ''''))"
  then have v: "chatViewObject s = Chat c"
    and f: "find (\<lambda>i. Some i \<noteq> map_option user_id (currentUser s)) (chat_memberIDs c) = Some i"
    by simp_all
  from getSearchContext_partner [OF v f] a
  show "getSearchContext s = ''''" by auto
next
  assume a: "chatViewObject s = Chat c \<and> currentUser s = None \<and> chat_memberIDs c = []"
  then have v: "chatViewObject s = Chat c"
    and f: "find (\<lambda>i. Some i \<noteq> map_option user_id (currentUser s)) (chat_memberIDs c) = None"
    by simp_all
  from getSearchContext_no_partner [OF v f] a
  show "getSearchContext s = ''''" by simp
qed

theorem getSearchContext_cases_witness:
  "chatViewObject (app_ex (Some (Channel general_ex)) None) = Channel general_ex \<and>
   getSearchContext (app_ex (Some (Channel general_ex)) None) = ''in:#general'' \<and>
   find (\<lambda>i. Some i \<noteq> map_option user_id (Some (user_ex ''u1'' ''alice''))) [''u1'', ''u2''] =
     Some ''u2'' \<and>
   users_ex ''u2'' = Some (user_ex ''u2'' ''bob'') \<and>
   getSearchContext (chat_view_ex [''u1'', ''u2''] (Some (user_ex ''u1'' ''alice''))) =
     ''in:@bob'' \<and>
   list_all (\<lambda>i. i = user_id (user_ex ''u1'' ''alice'')) [''u1'', ''u1''] \<and>
   getSearchContext (chat_view_ex [''u1'', ''u1''] (Some (user_ex ''u1'' ''alice''))) =
     ''in:@alice'' \<and>
   find (\<lambda>i. Some i \<noteq> map_option user_id (Some (user_ex ''u1'' ''alice''))) [''u1'', ''u9''] =
     Some ''u9'' \<and>
   users_ex ''u9'' = None \<and>
   getSearchContext (chat_view_ex [''u1'', ''u9''] (Some (user_ex ''u1'' ''alice''))) = '''' \<and>
   getSearchContext (chat_view_ex [] None) = ''''"
proof -
  have ch: "chatViewObject (app_ex (Some (Channel general_ex)) None) = Channel general_ex"
    "channel_name general_ex = ''general''"
    by (simp_all add: app_ex_def chatViewObject_def general_ex_def)
  from
    getSearchContext_cases [where s = "app_ex (Some (Channel general_ex)) None"
      and ch = general_ex and c = "chat_ex 5 ''c1'' [] ''chats/c1/messages''"
      and i = "''u2''" and u = "user_ex ''u2'' ''bob''" and me = "user_ex ''u1'' ''alice''"]
    getSearchContext_cases [where s = "chat_view_ex [''u1'', ''u2''] (Some (user_ex ''u1'' ''alice''))"
      and ch = general_ex and c = "chat_ex 5 ''c1'' [''u1'', ''u2''] ''chats/c1/messages''"
      and i = "''u2''" and u = "user_ex ''u2'' ''bob''" and me = "user_ex ''u1'' ''alice''"]
    getSearchContext_cases [where s = "chat_view_ex [''u1'', ''u1''] (Some (user_ex ''u1'' ''alice''))"
      and ch = general_ex and c = "chat_ex 5 ''c1'' [''u1'', ''u1''] ''chats/c1/messages''"
      and i = "''u2''" and u = "user_ex ''u2'' ''bob''" and me = "user_ex ''u1'' ''alice''"]
    getSearchContext_cases [where s = "chat_view_ex [''u1'', ''u9''] (Some (user_ex ''u1'' ''alice''))"
      and ch = general_ex and c = "chat_ex 5 ''c1'' [''u1'', ''u9''] ''chats/c1/messages''"
      and i = "''u9''" and u = "user_ex ''u2'' ''bob''" and me = "user_ex ''u1'' ''alice''"]
    getSearchContext_cases [where s = "chat_view_ex [] None"
      and ch = general_ex and c = "chat_ex 5 ''c1'' [] ''chats/c1/messages''"
      and i = "''u9''" and u = "user_ex ''u2'' ''bob''" and me = "user_ex ''u1'' ''alice''"]
  show ?thesis
    by (simp add: ch chat_view_ex_simps users_ex_simps user_ex_simps)
qed

text \<open>
  Claim C5 as stated fails when the lookup of the partner succeeds with an empty name:
  the empty name is falsy, the chat is no self-chat, and the context is the empty string,
  not \<^verbatim>\<open>in:@\<close> followed by the name.
\<close>

theorem empty_partner_name:
  "chatViewObject (chat_view_ex [''u1'', ''u3''] (Some (user_ex ''u1'' ''alice''))) =
     Chat (chat_ex 5 ''c1'' [''u1'', ''u3''] ''chats/c1/messages'') \<and>
   find (\<lambda>i. Some i \<noteq> map_option user_id (Some (user_ex ''u1'' ''alice''))) [''u1'', ''u3''] =
     Some ''u3'' \<and>
   getUserByID (chat_view_ex [''u1'', ''u3''] (Some (user_ex ''u1'' ''alice''))) ''u3'' =
     Some (user_ex ''u3'' '''') \<and>
   getSearchContext (chat_view_ex [''u1'', ''u3''] (Some (user_ex ''u1'' ''alice''))) = '''' \<and>
   getSearchContext (chat_view_ex [''u1'', ''u3''] (Some (user_ex ''u1'' ''alice''))) \<noteq>
     ''in:@'' @ user_name (user_ex ''u3'' '''')"
  by (simp add: chat_view_ex_simps users_ex_simps user_ex_simps getSearchContext_def
      getChatPartnerName_def isSelfChat_def truthy_def truthy_opt_def template_def)

text \<open>
  Claim C10, as amended. With no current user and a chat as view object,
  \<open>isSelfChat\<close> is false, the partner is the first member of the chat, and the context is
  \<^verbatim>\<open>in:@\<close> and the name of that member when the id is not the empty string, the directory
  has a user for it and the name is not empty; it is the empty string otherwise, also
  when the chat has no member.
\<close>

theorem getSearchContext_no_currentUser:
  assumes "currentUser s = None" and "chatViewObject s = Chat c"
  shows "\<not> isSelfChat s \<and>
         find (\<lambda>i. Some i \<noteq> map_option user_id (currentUser s)) (chat_memberIDs c) =
           (case chat_memberIDs c of [] \<Rightarrow> None | i # rest \<Rightarrow> Some i) \<and>
         getSearchContext s =
           (case chat_memberIDs c of
              [] \<Rightarrow> ''''
            | i # rest \<Rightarrow>
                (case (if i = '''' then None else getUserByID s i) of
                   None \<Rightarrow> ''''
                 | Some u \<Rightarrow> if user_name u = '''' then '''' else ''in:@'' @ user_name u))"
proof -
  have 1: "\<not> isSelfChat s"
    using assms by (simp add: isSelfChat_def)
  have 2: "find (\<lambda>i. Some i \<noteq> map_option user_id (currentUser s)) (chat_memberIDs c) =
           (case chat_memberIDs c of [] \<Rightarrow> None | i # rest \<Rightarrow> Some i)"
    using assms(1) by (cases "chat_memberIDs c") simp_all
  have 3: "getSearchContext s =
           (case chat_memberIDs c of
              [] \<Rightarrow> ''''
            | i # rest \<Rightarrow>
                (case (if i = '''' then None else getUserByID s i) of
                   None \<Rightarrow> ''''
                 | Some u \<Rightarrow> if user_name u = '''' then '''' else ''in:@'' @ user_name u))"
  proof (cases "chat_memberIDs c")
    case Nil
    with 2 have "find (\<lambda>i. Some i \<noteq> map_option user_id (currentUser s)) (chat_memberIDs c) = None"
      by simp
    from getSearchContext_no_partner [OF assms(2) this] assms(1) Nil show ?thesis by simp
  next
    case (Cons i rest)
    with 2 have "find (\<lambda>i. Some i \<noteq> map_option user_id (currentUser s)) (chat_memberIDs c) = Some i"
      by simp
    from getSearchContext_partner [OF assms(2) this] Cons show ?thesis by simp
  qed
  from 1 2 3 show ?thesis by blast
qed

theorem getSearchContext_no_currentUser_witness:
  "currentUser (chat_view_ex [''u1'', ''u1''] None) = None \<and>
   chatViewObject (chat_view_ex [''u1'', ''u1''] None) =
     Chat (chat_ex 5 ''c1'' [''u1'', ''u1''] ''chats/c1/messages'') \<and>
   \<not> isSelfChat (chat_view_ex [''u1'', ''u1''] None) \<and>
   getSearchContext (chat_view_ex [''u1'', ''u1''] None) = ''in:@alice'' \<and>
   getSearchContext (chat_view_ex [''u9'', ''u1''] None) = ''''"
proof -
  have h: "currentUser (chat_view_ex [''u1'', ''u1''] None) = None"
    "chatViewObject (chat_view_ex [''u1'', ''u1''] None) =
       Chat (chat_ex 5 ''c1'' [''u1'', ''u1''] ''chats/c1/messages'')"
    "currentUser (chat_view_ex [''u9'', ''u1''] None) = None"
    "chatViewObject (chat_view_ex [''u9'', ''u1''] None) =
       Chat (chat_ex 5 ''c1'' [''u9'', ''u1''] ''chats/c1/messages'')"
    by (simp_all add: chat_view_ex_simps)
  from getSearchContext_no_currentUser [OF h(1) h(2)]
    getSearchContext_no_currentUser [OF h(3) h(4)]
  show ?thesis
    by (simp add: chat_view_ex_simps users_ex_simps user_ex_simps)
qed

text \<open>
  Claim C10 as stated fails when the directory has the first member with an empty name:
  the lookup succeeds and the context is the empty string.
\<close>

theorem no_currentUser_empty_name:
  "currentUser (chat_view_ex [''u3'', ''u3''] None) = None \<and>
   chatViewObject (chat_view_ex [''u3'', ''u3''] None) =
     Chat (chat_ex 5 ''c1'' [''u3'', ''u3''] ''chats/c1/messages'') \<and>
   getUserByID (chat_view_ex [''u3'', ''u3''] None) ''u3'' = Some (user_ex ''u3'' '''') \<and>
   getSearchContext (chat_view_ex [''u3'', ''u3''] None) = '''' \<and>
   getSearchContext (chat_view_ex [''u3'', ''u3''] None) \<noteq>
     ''in:@'' @ user_name (user_ex ''u3'' '''')"
  by (simp add: chat_view_ex_simps users_ex_simps user_ex_simps getSearchContext_def
      getChatPartnerName_def isSelfChat_def truthy_def truthy_opt_def template_def)


section \<open>The event of a complete navigation\<close>

lemma emit_condition:
  "(same_object (u_chatViewObject s) object \<or>
    (instanceof_Chat (u_chatViewObject s) \<and> instanceof_User object)) =
   (case object of
      SelectChannel channel \<Rightarrow>
        (\<exists>c. u_chatViewObject s = Some (Channel c) \<and> channel_ref c = channel_ref channel)
    | SelectUser user \<Rightarrow> (\<exists>c. u_chatViewObject s = Some (Chat c)))"
  by (auto simp: same_object_def instanceof_Chat_def instanceof_User_def
      split: selection.splits option.splits view.splits)

lemma earlier_emit_condition:
  "(same_object (e_chatViewObject s) object \<or>
    (instanceof_Chat (e_chatViewObject s) \<and> instanceof_User object)) =
   (case object of
      SelectChannel channel \<Rightarrow>
        (\<exists>c. e_chatViewObject s = Some (Channel c) \<and> channel_ref c = channel_ref channel)
    | SelectUser user \<Rightarrow> (\<exists>c. e_chatViewObject s = Some (Chat c)))"
  by (auto simp: same_object_def instanceof_Chat_def instanceof_User_def
      split: selection.splits option.splits view.splits)

lemmas earlier_defs = earlier_setChatViewObject_beforeTimeout_def
  earlier_setChatViewObject_afterTimeout_def earlier_clearThread_def
  same_object_def instanceof_Chat_def instanceof_User_def

text \<open>
  Claim C3, as amended. When the timeout of a call of \<^verbatim>\<open>setChatViewObject\<close> has passed,
  \<open>navigationComplete\<close> is emitted exactly when the view object is then the very channel
  that was selected or, for a selected user, is a chat, whichever chat it is; the view
  object is not changed by this. The test reads the view at the timeout and knows
  nothing of the request. A channel selection that runs alone ends with the event, and
  so does a user selection whose chat is found. With another channel on view at the
  timeout there is no event: so it is for the first selection when the selection of
  another channel has followed it. With the selected channel on view again, or still,
  there is one: so it is for the first selection when the same channel was selected
  again after the other one, and when the selection that followed was that of a user
  for whom no chat is found. The earlier listing has the same test.
\<close>

theorem navigationComplete_emitted:
  "navigationComplete (snd (setChatViewObject_afterTimeout object s)) =
     (if (case object of
            SelectChannel channel \<Rightarrow>
              (\<exists>c. u_chatViewObject s = Some (Channel c) \<and> channel_ref c = channel_ref channel)
          | SelectUser user \<Rightarrow> (\<exists>c. u_chatViewObject s = Some (Chat c)))
      then Suc (navigationComplete s) else navigationComplete s) \<and>
   navigationCompleteSubject (snd (setChatViewObject_afterTimeout object s)) =
     Suc (navigationCompleteSubject s) \<and>
   u_chatViewObject (snd (setChatViewObject_afterTimeout object s)) = u_chatViewObject s \<and>
   navigationComplete (snd (setChatViewObject (SelectChannel a) lookup creation s)) =
     Suc (navigationComplete s) \<and>
   navigationComplete (snd (setChatViewObject (SelectUser user) (Resolved (Some chat)) creation s)) =
     Suc (navigationComplete s) \<and>
   (channel_ref a \<noteq> channel_ref b \<longrightarrow>
      navigationComplete (snd (setChatViewObject_afterTimeout (SelectChannel a)
        (setChatViewObject_beforeTimeout (SelectChannel b)
           (setChatViewObject_beforeTimeout (SelectChannel a) s)))) = navigationComplete s) \<and>
   navigationComplete (snd (setChatViewObject_afterTimeout (SelectChannel a)
     (setChatViewObject_beforeTimeout (SelectChannel a)
        (setChatViewObject_beforeTimeout (SelectChannel b)
           (setChatViewObject_beforeTimeout (SelectChannel a) s))))) = Suc (navigationComplete s) \<and>
   navigationComplete (snd (setChatViewObject_afterTimeout (SelectChannel a)
     (setChatViewObjectAsChat user (Resolved None) creation
        (setChatViewObject_beforeTimeout (SelectUser user)
           (setChatViewObject_beforeTimeout (SelectChannel a) s))))) = Suc (navigationComplete s) \<and>
   e_navigationComplete (earlier_setChatViewObject_afterTimeout object e) =
     (if (case object of
            SelectChannel channel \<Rightarrow>
              (\<exists>c. e_chatViewObject e = Some (Channel c) \<and> channel_ref c = channel_ref channel)
          | SelectUser user \<Rightarrow> (\<exists>c. e_chatViewObject e = Some (Chat c)))
      then Suc (e_navigationComplete e) else e_navigationComplete e) \<and>
   e_chatViewObject (earlier_setChatViewObject_afterTimeout object e) = e_chatViewObject e \<and>
   e_navigationComplete (earlier_setChatViewObject_afterTimeout (SelectChannel a)
     (earlier_setChatViewObject_beforeTimeout (SelectUser user) (Resolved None)
        (earlier_setChatViewObject_beforeTimeout (SelectChannel a) lookup e))) =
     Suc (e_navigationComplete e)"
proof -
  have 1: "navigationComplete (snd (setChatViewObject_afterTimeout object s)) =
     (if (case object of
            SelectChannel channel \<Rightarrow>
              (\<exists>c. u_chatViewObject s = Some (Channel c) \<and> channel_ref c = channel_ref channel)
          | SelectUser user \<Rightarrow> (\<exists>c. u_chatViewObject s = Some (Chat c)))
      then Suc (navigationComplete s) else navigationComplete s)"
    unfolding emit_condition [symmetric]
    by (simp add: setChatViewObject_afterTimeout_def Let_def)
  have 2: "navigationCompleteSubject (snd (setChatViewObject_afterTimeout object s)) =
     Suc (navigationCompleteSubject s)"
    by (simp add: setChatViewObject_afterTimeout_def Let_def)
  have 3: "u_chatViewObject (snd (setChatViewObject_afterTimeout object s)) = u_chatViewObject s"
    by (simp add: setChatViewObject_afterTimeout_def Let_def)
  have 4: "navigationComplete (snd (setChatViewObject (SelectChannel a) lookup creation s)) =
     Suc (navigationComplete s)"
    by (simp add: nav_defs Let_def)
  have 5: "navigationComplete (snd (setChatViewObject (SelectUser user) (Resolved (Some chat)) creation s)) =
     Suc (navigationComplete s)"
    by (simp add: nav_defs Let_def)
  have 6: "channel_ref a \<noteq> channel_ref b \<longrightarrow>
      navigationComplete (snd (setChatViewObject_afterTimeout (SelectChannel a)
        (setChatViewObject_beforeTimeout (SelectChannel b)
           (setChatViewObject_beforeTimeout (SelectChannel a) s)))) = navigationComplete s"
    by (simp add: nav_defs Let_def)
  have 7: "navigationComplete (snd (setChatViewObject_afterTimeout (SelectChannel a)
     (setChatViewObject_beforeTimeout (SelectChannel a)
        (setChatViewObject_beforeTimeout (SelectChannel b)
           (setChatViewObject_beforeTimeout (SelectChannel a) s))))) = Suc (navigationComplete s)"
    by (simp add: nav_defs Let_def)
  have 8: "navigationComplete (snd (setChatViewObject_afterTimeout (SelectChannel a)
     (setChatViewObjectAsChat user (Resolved None) creation
        (setChatViewObject_beforeTimeout (SelectUser user)
           (setChatViewObject_beforeTimeout (SelectChannel a) s))))) = Suc (navigationComplete s)"
    by (cases creation) (simp_all add: nav_defs Let_def split: option.split)
  have 9: "e_navigationComplete (earlier_setChatViewObject_afterTimeout object e) =
     (if (case object of
            SelectChannel channel \<Rightarrow>
              (\<exists>c. e_chatViewObject e = Some (Channel c) \<and> channel_ref c = channel_ref channel)
          | SelectUser user \<Rightarrow> (\<exists>c. e_chatViewObject e = Some (Chat c)))
      then Suc (e_navigationComplete e) else e_navigationComplete e)"
    unfolding earlier_emit_condition [symmetric]
    by (simp add: earlier_setChatViewObject_afterTimeout_def Let_def)
  have 10: "e_chatViewObject (earlier_setChatViewObject_afterTimeout object e) = e_chatViewObject e"
    by (simp add: earlier_setChatViewObject_afterTimeout_def Let_def)
  have 11: "e_navigationComplete (earlier_setChatViewObject_afterTimeout (SelectChannel a)
     (earlier_setChatViewObject_beforeTimeout (SelectUser user) (Resolved None)
        (earlier_setChatViewObject_beforeTimeout (SelectChannel a) lookup e))) =
     Suc (e_navigationComplete e)"
    by (simp add: earlier_defs Let_def)
  from 1 2 3 4 5 6 7 8 9 10 11 show ?thesis by blast
qed

theorem navigationComplete_emitted_witness:
  "channel_ref general_ex \<noteq> channel_ref random_ex \<and>
   navigationComplete (snd (setChatViewObject_afterTimeout (SelectChannel general_ex)
        (setChatViewObject_beforeTimeout (SelectChannel random_ex)
           (setChatViewObject_beforeTimeout (SelectChannel general_ex) (app_ex None None))))) = 0 \<and>
   navigationComplete (snd (setChatViewObject_afterTimeout (SelectChannel random_ex)
        (setChatViewObject_beforeTimeout (SelectChannel random_ex)
           (setChatViewObject_beforeTimeout (SelectChannel general_ex) (app_ex None None))))) = 1 \<and>
   navigationComplete (snd (setChatViewObject_afterTimeout (SelectChannel general_ex)
        (setChatViewObject_beforeTimeout (SelectChannel general_ex)
           (setChatViewObject_beforeTimeout (SelectChannel random_ex)
              (setChatViewObject_beforeTimeout (SelectChannel general_ex)
                 (app_ex None None)))))) = 1 \<and>
   e_navigationComplete (earlier_setChatViewObject_afterTimeout (SelectChannel general_ex)
     (earlier_setChatViewObject_beforeTimeout (SelectUser carol_ex) (Resolved None)
        (earlier_setChatViewObject_beforeTimeout (SelectChannel general_ex) Rejected
           earlier_ex))) = 1"
proof -
  have r: "channel_ref general_ex \<noteq> channel_ref random_ex"
    by (simp add: general_ex_def random_ex_def)
  have n: "navigationComplete (app_ex None None) = 0" "e_navigationComplete earlier_ex = 0"
    by (simp_all add: app_ex_def earlier_ex_def)
  have v: "u_chatViewObject (setChatViewObject_beforeTimeout (SelectChannel random_ex)
           (setChatViewObject_beforeTimeout (SelectChannel general_ex) (app_ex None None))) =
        Some (Channel random_ex)"
    "navigationComplete (setChatViewObject_beforeTimeout (SelectChannel random_ex)
           (setChatViewObject_beforeTimeout (SelectChannel general_ex) (app_ex None None))) = 0"
    by (simp_all add: nav_defs app_ex_def)
  note first = navigationComplete_emitted [where a = general_ex and b = random_ex
      and s = "app_ex None None" and object = "SelectChannel general_ex"
      and lookup = Rejected and creation = Rejected and user = carol_ex and chat = bob_chat_ex
      and e = earlier_ex]
  note second = navigationComplete_emitted [where a = general_ex and b = random_ex
      and s = "setChatViewObject_beforeTimeout (SelectChannel random_ex)
           (setChatViewObject_beforeTimeout (SelectChannel general_ex) (app_ex None None))"
      and object = "SelectChannel random_ex"
      and lookup = Rejected and creation = Rejected and user = carol_ex and chat = bob_chat_ex
      and e = earlier_ex]
  from first r have "navigationComplete (snd (setChatViewObject_afterTimeout (SelectChannel general_ex)
        (setChatViewObject_beforeTimeout (SelectChannel random_ex)
           (setChatViewObject_beforeTimeout (SelectChannel general_ex) (app_ex None None))))) =
      navigationComplete (app_ex None None)"
    by blast
  then have 1: "navigationComplete (snd (setChatViewObject_afterTimeout (SelectChannel general_ex)
        (setChatViewObject_beforeTimeout (SelectChannel random_ex)
           (setChatViewObject_beforeTimeout (SelectChannel general_ex) (app_ex None None))))) = 0"
    by (simp add: n)
  from second have "navigationComplete (snd (setChatViewObject_afterTimeout (SelectChannel random_ex)
        (setChatViewObject_beforeTimeout (SelectChannel random_ex)
           (setChatViewObject_beforeTimeout (SelectChannel general_ex) (app_ex None None))))) =
     (if (case SelectChannel random_ex of
            SelectChannel channel \<Rightarrow>
              (\<exists>c. u_chatViewObject (setChatViewObject_beforeTimeout (SelectChannel random_ex)
                     (setChatViewObject_beforeTimeout (SelectChannel general_ex)
                        (app_ex None None))) = Some (Channel c) \<and>
                   channel_ref c = channel_ref channel)
          | SelectUser user \<Rightarrow>
              (\<exists>c. u_chatViewObject (setChatViewObject_beforeTimeout (SelectChannel random_ex)
                     (setChatViewObject_beforeTimeout (SelectChannel general_ex)
                        (app_ex None None))) = Some (Chat c)))
      then Suc (navigationComplete (setChatViewObject_beforeTimeout (SelectChannel random_ex)
           (setChatViewObject_beforeTimeout (SelectChannel general_ex) (app_ex None None))))
      else navigationComplete (setChatViewObject_beforeTimeout (SelectChannel random_ex)
           (setChatViewObject_beforeTimeout (SelectChannel general_ex) (app_ex None None))))"
    by blast
  then have 2: "navigationComplete (snd (setChatViewObject_afterTimeout (SelectChannel random_ex)
        (setChatViewObject_beforeTimeout (SelectChannel random_ex)
           (setChatViewObject_beforeTimeout (SelectChannel general_ex) (app_ex None None))))) = 1"
    by (simp add: v)
  from first have "navigationComplete (snd (setChatViewObject_afterTimeout (SelectChannel general_ex)
        (setChatViewObject_beforeTimeout (SelectChannel general_ex)
           (setChatViewObject_beforeTimeout (SelectChannel random_ex)
              (setChatViewObject_beforeTimeout (SelectChannel general_ex)
                 (app_ex None None)))))) = Suc (navigationComplete (app_ex None None))"
    by blast
  then have 3: "navigationComplete (snd (setChatViewObject_afterTimeout (SelectChannel general_ex)
        (setChatViewObject_beforeTimeout (SelectChannel general_ex)
           (setChatViewObject_beforeTimeout (SelectChannel random_ex)
              (setChatViewObject_beforeTimeout (SelectChannel general_ex)
                 (app_ex None None)))))) = 1"
    by (simp add: n)
  from first have "e_navigationComplete (earlier_setChatViewObject_afterTimeout (SelectChannel general_ex)
     (earlier_setChatViewObject_beforeTimeout (SelectUser carol_ex) (Resolved None)
        (earlier_setChatViewObject_beforeTimeout (SelectChannel general_ex) Rejected
           earlier_ex))) = Suc (e_navigationComplete earlier_ex)"
    by blast
  then have 4: "e_navigationComplete (earlier_setChatViewObject_afterTimeout (SelectChannel general_ex)
     (earlier_setChatViewObject_beforeTimeout (SelectUser carol_ex) (Resolved None)
        (earlier_setChatViewObject_beforeTimeout (SelectChannel general_ex) Rejected
           earlier_ex))) = 1"
    by (simp add: n)
  from r 1 2 3 4 show ?thesis by blast
qed

text \<open>
  Claim C3 as stated fails for a selected user: with the chat of another user on view and
  a creation that fails, and also when the selection of another user has replaced the
  view in the meantime, the event is emitted while the view is the chat of the other
  user.
\<close>

theorem navigationComplete_for_other_chat:
  "u_chatViewObject (snd (setChatViewObject (SelectUser carol_ex) (Resolved None) (Resolved None)
      (app_ex (Some (Chat bob_chat_ex)) (Some (user_ex ''u1'' ''alice''))))) =
     Some (Chat bob_chat_ex) \<and>
   user_id carol_ex \<notin> set (chat_memberIDs bob_chat_ex) \<and>
   navigationComplete (app_ex (Some (Chat bob_chat_ex)) (Some (user_ex ''u1'' ''alice''))) = 0 \<and>
   navigationComplete (snd (setChatViewObject (SelectUser carol_ex) (Resolved None) (Resolved None)
      (app_ex (Some (Chat bob_chat_ex)) (Some (user_ex ''u1'' ''alice''))))) = 1 \<and>
   u_chatViewObject (snd (setChatViewObject_afterTimeout (SelectUser carol_ex)
      (setChatViewObjectAsChat_afterLookup (user_ex ''u2'' ''bob'') (Resolved (Some bob_chat_ex))
         (setChatViewObject_beforeTimeout (SelectUser (user_ex ''u2'' ''bob''))
            (setChatViewObjectAsChat_afterLookup carol_ex (Resolved None)
               (setChatViewObject_beforeTimeout (SelectUser carol_ex) (app_ex None None))))))) =
     Some (Chat bob_chat_ex) \<and>
   navigationComplete (snd (setChatViewObject_afterTimeout (SelectUser carol_ex)
      (setChatViewObjectAsChat_afterLookup (user_ex ''u2'' ''bob'') (Resolved (Some bob_chat_ex))
         (setChatViewObject_beforeTimeout (SelectUser (user_ex ''u2'' ''bob''))
            (setChatViewObjectAsChat_afterLookup carol_ex (Resolved None)
               (setChatViewObject_beforeTimeout (SelectUser carol_ex) (app_ex None None))))))) = 1"
  by (simp add: nav_defs Let_def app_ex_def carol_ex_def bob_chat_ex_def chat_ex_def user_ex_def)


section \<open>Creating a chat\<close>

text \<open>
  Claim C6, as amended. When no chat is found and the creation fails (its promise
  rejects, or resolves to \<^verbatim>\<open>undefined\<close> or to the empty string), the promise of
  \<^verbatim>\<open>setChatViewObject\<close> still resolves: no error reaches the caller. The view object and
  its path are as before, \<^verbatim>\<open>addChatWithUserOnFirestore\<close> has been called once, nothing is
  subscribed, the thread is cleared, and \<open>chatViewObjectSetAsChat\<close> is sent unless the
  promise of the creation rejected. Whenever the timeout and the failed creation run,
  in whatever state \<open>t\<close>, the promise of the caller resolves, and the rest of
  \<^verbatim>\<open>setChatViewObjectAsChat\<close> changes neither the view nor the subscriptions and calls the
  creation no second time.
\<close>

theorem creation_failure:
  assumes "creation = Rejected \<or> creation = Resolved None \<or> creation = Resolved (Some '''')"
  shows "fst (setChatViewObject (SelectUser user) (Resolved None) creation s) = Resolved () \<and>
         u_chatViewObject (snd (setChatViewObject (SelectUser user) (Resolved None) creation s)) =
           u_chatViewObject s \<and>
         u_chatViewPath (snd (setChatViewObject (SelectUser user) (Resolved None) creation s)) =
           u_chatViewPath s \<and>
         addChatWithUserOnFirestore_calls
             (snd (setChatViewObject (SelectUser user) (Resolved None) creation s)) =
           addChatWithUserOnFirestore_calls s @ [user_id user] \<and>
         chatListChange_subscriptions
             (snd (setChatViewObject (SelectUser user) (Resolved None) creation s)) =
           chatListChange_subscriptions s \<and>
         u_threadViewObject (snd (setChatViewObject (SelectUser user) (Resolved None) creation s)) =
           None \<and>
         changeSubject (snd (setChatViewObject (SelectUser user) (Resolved None) creation s)) =
           changeSubject s @ [threadViewObjectCleared] @
             (if creation = Rejected then [] else [chatViewObjectSetAsChat]) \<and>
         fst (setChatViewObject_afterTimeout object t) = Resolved () \<and>
         u_chatViewObject (setChatViewObjectAsChat_afterCreation creation t) = u_chatViewObject t \<and>
         u_chatViewPath (setChatViewObjectAsChat_afterCreation creation t) = u_chatViewPath t \<and>
         chatListChange_subscriptions (setChatViewObjectAsChat_afterCreation creation t) =
           chatListChange_subscriptions t \<and>
         addChatWithUserOnFirestore_calls (setChatViewObjectAsChat_afterCreation creation t) =
           addChatWithUserOnFirestore_calls t"
  using assms by (auto simp: nav_defs Let_def)

theorem creation_failure_witness:
  "fst (setChatViewObject (SelectUser carol_ex) (Resolved None) (Resolved None)
      (app_ex (Some (Channel general_ex)) None)) = Resolved () \<and>
   u_chatViewObject (snd (setChatViewObject (SelectUser carol_ex) (Resolved None) (Resolved None)
      (app_ex (Some (Channel general_ex)) None))) = Some (Channel general_ex) \<and>
   addChatWithUserOnFirestore_calls
      (snd (setChatViewObject (SelectUser carol_ex) (Resolved None) (Resolved None)
      (app_ex (Some (Channel general_ex)) None))) = [''u4''] \<and>
   changeSubject (snd (setChatViewObject (SelectUser carol_ex) (Resolved None) Rejected
      (app_ex (Some (Channel general_ex)) None))) = [threadViewObjectCleared]"
  using creation_failure [of "Resolved None" carol_ex "app_ex (Some (Channel general_ex)) None"]
    creation_failure [of Rejected carol_ex "app_ex (Some (Channel general_ex)) None"]
  by (simp add: app_ex_def carol_ex_def user_ex_def)

text \<open>
  Claim C6 as stated fails: the promise the caller holds resolves whether the creation
  resolved to \<^verbatim>\<open>undefined\<close> or rejected.
\<close>

theorem creation_failure_not_surfaced:
  "fst (setChatViewObject (SelectUser carol_ex) (Resolved None) (Resolved None)
      (app_ex None (Some (user_ex ''u1'' ''alice'')))) = Resolved () \<and>
   fst (setChatViewObject (SelectUser carol_ex) (Resolved None) (Resolved None)
      (app_ex None (Some (user_ex ''u1'' ''alice'')))) \<noteq> Rejected \<and>
   fst (setChatViewObject (SelectUser carol_ex) (Resolved None) Rejected
      (app_ex None (Some (user_ex ''u1'' ''alice'')))) = Resolved () \<and>
   changeSubject (snd (setChatViewObject (SelectUser carol_ex) (Resolved None) (Resolved None)
      (app_ex None (Some (user_ex ''u1'' ''alice''))))) =
     [threadViewObjectCleared, chatViewObjectSetAsChat]"
  by (simp add: nav_defs Let_def app_ex_def)

lemma chats_callback: "chats (chatListChange_callback sub s) = chats s"
  by (simp add: chatListChange_callback_def split: option.split)

lemma chats_callbacks:
  "chats (foldl (\<lambda>s' sub. chatListChange_callback sub s') s subs) = chats s"
  by (induction subs arbitrary: s) (simp_all add: chats_callback)

lemma subscriptions_callback:
  "chatListChange_subscriptions (chatListChange_callback sub s) = chatListChange_subscriptions s"
  by (simp add: chatListChange_callback_def split: option.split)

lemma subscriptions_callbacks:
  "chatListChange_subscriptions (foldl (\<lambda>s' sub. chatListChange_callback sub s') s subs) =
   chatListChange_subscriptions s"
  by (induction subs arbitrary: s) (simp_all add: subscriptions_callback)

lemma chatListChange_last:
  "chatListChange_subscriptions s = subs @ [sub] \<Longrightarrow>
   chatListChange cs s =
     chatListChange_callback sub
       (foldl (\<lambda>s' sub. chatListChange_callback sub s') (s\<lparr>chats := cs\<rparr>) subs)"
  by (simp add: chatListChange_def)

lemma chatListChange_found:
  assumes "chatListChange_subscriptions s = subs @ [(h, i)]"
    and "find (\<lambda>chat. chat_id chat = i) cs = Some chat"
  shows "u_chatViewObject (chatListChange cs s) = Some (Chat chat) \<and>
         u_chatViewPath (chatListChange cs s) = Some (chatMessagesPath chat) \<and>
         h \<in> set (unsubscribe_timeouts (chatListChange cs s)) \<and>
         chatListChange_subscriptions (chatListChange cs s) = chatListChange_subscriptions s"
proof -
  let ?t = "foldl (\<lambda>s' sub. chatListChange_callback sub s') (s\<lparr>chats := cs\<rparr>) subs"
  have c: "chats ?t = cs" by (simp add: chats_callbacks)
  have e: "chatListChange cs s = chatListChange_callback (h, i) ?t"
    using assms(1) by (rule chatListChange_last)
  have "chatListChange_subscriptions ?t = chatListChange_subscriptions s"
    by (simp add: subscriptions_callbacks)
  then show ?thesis
    unfolding e using assms(2) c
    by (simp add: chatListChange_callback_def)
qed

lemma unsubscribe_timeout_cancels:
  "h \<in> set (unsubscribe_timeouts s) \<Longrightarrow>
   h \<notin> fst ` set (chatListChange_subscriptions (unsubscribe_timeout h s))"
  by (auto simp: unsubscribe_timeout_def)

lemma timeouts_callback:
  "unsubscribe_timeouts (chatListChange_callback sub t) =
   unsubscribe_timeouts t @
     (if find (\<lambda>chat. chat_id chat = snd sub) (chats t) \<noteq> None then [fst sub] else [])"
  by (simp add: chatListChange_callback_def split: option.split)

lemma timeouts_callbacks:
  "unsubscribe_timeouts (foldl (\<lambda>s' sub. chatListChange_callback sub s') t subs) =
   unsubscribe_timeouts t @
     map fst (filter (\<lambda>sub. find (\<lambda>chat. chat_id chat = snd sub) (chats t) \<noteq> None) subs)"
  by (induction subs arbitrary: t) (simp_all add: timeouts_callback chats_callback)

lemma callback_not_listed:
  "find (\<lambda>chat. chat_id chat = snd sub) (chats t) = None \<Longrightarrow> chatListChange_callback sub t = t"
  by (simp add: chatListChange_callback_def)

lemma callbacks_not_listed:
  "\<forall>sub \<in> set subs. find (\<lambda>chat. chat_id chat = snd sub) (chats t) = None \<Longrightarrow>
   foldl (\<lambda>s' sub. chatListChange_callback sub s') t subs = t"
  by (induction subs arbitrary: t) (simp_all add: callback_not_listed)

lemma callbacks_last_listed:
  assumes "find (\<lambda>chat. chat_id chat = i) (chats t) = Some chat"
    and "\<forall>sub \<in> set post. find (\<lambda>chat. chat_id chat = snd sub) (chats t) = None"
  shows "u_chatViewObject
           (foldl (\<lambda>s' sub. chatListChange_callback sub s') t (pre @ [(h, i)] @ post)) =
           Some (Chat chat) \<and>
         u_chatViewPath
           (foldl (\<lambda>s' sub. chatListChange_callback sub s') t (pre @ [(h, i)] @ post)) =
           Some (chatMessagesPath chat)"
proof -
  let ?F = "foldl (\<lambda>s' sub. chatListChange_callback sub s')"
  let ?m = "chatListChange_callback (h, i) (?F t pre)"
  have c: "chats (?F t pre) = chats t" by (rule chats_callbacks)
  then have cm: "chats ?m = chats t" by (simp add: chats_callback)
  have "?F t (pre @ [(h, i)] @ post) = ?F ?m post" by simp
  also have "\<dots> = ?m"
    by (rule callbacks_not_listed) (simp add: cm assms(2))
  finally have e: "?F t (pre @ [(h, i)] @ post) = ?m" .
  show ?thesis
    unfolding e using assms(1) c by (simp add: chatListChange_callback_def)
qed

lemma subscriptions_chatListChange:
  "chatListChange_subscriptions (chatListChange cs t) = chatListChange_subscriptions t"
  by (simp add: chatListChange_def subscriptions_callbacks)

lemma timeouts_chatListChange:
  "unsubscribe_timeouts (chatListChange cs t) =
   unsubscribe_timeouts t @
     map fst (filter (\<lambda>sub. find (\<lambda>chat. chat_id chat = snd sub) cs \<noteq> None)
       (chatListChange_subscriptions t))"
  by (simp add: chatListChange_def timeouts_callbacks)

lemma chatListChange_not_listed:
  "\<forall>sub \<in> set (chatListChange_subscriptions t).
      find (\<lambda>chat. chat_id chat = snd sub) cs = None \<Longrightarrow>
   chatListChange cs t = t\<lparr>chats := cs\<rparr>"
  unfolding chatListChange_def by (rule callbacks_not_listed) simp

lemma chatListChange_last_listed:
  assumes "chatListChange_subscriptions t = pre @ [(h, i)] @ post"
    and "find (\<lambda>chat. chat_id chat = i) cs = Some chat"
    and "\<forall>sub \<in> set post. find (\<lambda>chat. chat_id chat = snd sub) cs = None"
  shows "u_chatViewObject (chatListChange cs t) = Some (Chat chat) \<and>
         u_chatViewPath (chatListChange cs t) = Some (chatMessagesPath chat)"
proof -
  have "u_chatViewObject
           (foldl (\<lambda>s' sub. chatListChange_callback sub s') (t\<lparr>chats := cs\<rparr>)
              (pre @ [(h, i)] @ post)) = Some (Chat chat) \<and>
         u_chatViewPath
           (foldl (\<lambda>s' sub. chatListChange_callback sub s') (t\<lparr>chats := cs\<rparr>)
              (pre @ [(h, i)] @ post)) = Some (chatMessagesPath chat)"
    by (rule callbacks_last_listed) (simp_all add: assms)
  then show ?thesis by (simp add: chatListChange_def assms(1))
qed

lemma subscriptions_unsubscribe_timeout:
  "h \<in> set (unsubscribe_timeouts t) \<Longrightarrow>
   chatListChange_subscriptions (unsubscribe_timeout h t) =
     filter (\<lambda>sub. fst sub \<noteq> h) (chatListChange_subscriptions t)"
  by (simp add: unsubscribe_timeout_def)

lemma subscriptions_setChatViewObject:
  "\<exists>new. chatListChange_subscriptions (snd (setChatViewObject object lookup creation t)) =
         chatListChange_subscriptions t @ new"
proof (cases object)
  case (SelectChannel c)
  then show ?thesis by (simp add: nav_defs Let_def)
next
  case (SelectUser u)
  show ?thesis
  proof (cases "lookup = Resolved None")
    case False
    with SelectUser show ?thesis
      by (cases lookup) (auto simp: nav_defs Let_def split: option.split)
  next
    case True
    with SelectUser show ?thesis
      by (cases creation) (auto simp: nav_defs Let_def split: option.split)
  qed
qed

lemma subscriptions_steps:
  "chatListChange_subscriptions (setChatViewObject_beforeTimeout object t) =
     chatListChange_subscriptions t \<and>
   chatListChange_subscriptions (setChatViewObjectAsChat_afterLookup user lookup t) =
     chatListChange_subscriptions t \<and>
   chatListChange_subscriptions (snd (setChatViewObject_afterTimeout object t)) =
     chatListChange_subscriptions t \<and>
   (\<exists>new. chatListChange_subscriptions (setChatViewObjectAsChat_afterCreation creation t) =
      chatListChange_subscriptions t @ new) \<and>
   chatListChange_subscriptions (setThreadViewObject message t) =
     chatListChange_subscriptions t \<and>
   chatListChange_subscriptions (clearThreadViewObject t) = chatListChange_subscriptions t"
proof -
  have 5: "chatListChange_subscriptions (setThreadViewObject message t) =
     chatListChange_subscriptions t"
    by (simp add: setThreadViewObject_def)
  have 6: "chatListChange_subscriptions (clearThreadViewObject t) = chatListChange_subscriptions t"
    by (simp add: clearThreadViewObject_def)
  have 1: "chatListChange_subscriptions (setChatViewObject_beforeTimeout object t) =
     chatListChange_subscriptions t"
    by (cases object) (simp_all add: nav_defs)
  have 2: "chatListChange_subscriptions (setChatViewObjectAsChat_afterLookup user lookup t) =
     chatListChange_subscriptions t"
    by (cases lookup) (simp_all add: nav_defs split: option.split)
  have 3: "chatListChange_subscriptions (snd (setChatViewObject_afterTimeout object t)) =
     chatListChange_subscriptions t"
    by (simp add: nav_defs Let_def)
  have 4: "\<exists>new. chatListChange_subscriptions (setChatViewObjectAsChat_afterCreation creation t) =
      chatListChange_subscriptions t @ new"
    by (cases creation) (auto simp: nav_defs Let_def split: option.split)
  from 1 2 3 4 5 6 show ?thesis by blast
qed

text \<open>
  Claim C2, as amended. When no chat is found and the creation returns a non-empty id,
  \<^verbatim>\<open>addChatWithUserOnFirestore\<close> is called once and one subscription to the chat list is
  made. A notification runs the callbacks of the subscriptions alive, in the order the
  subscriptions were made: a callback whose chat id is in the list of chats makes that
  chat the view object, with its path, and sets the timeout that ends its subscription;
  a callback whose chat id is not in the list changes nothing. So a notification leaves
  every subscription alive, sets a timeout for each subscription whose chat is listed,
  leaves the view as it is when no such subscription is alive, and otherwise puts on
  view the chat of the last of them; that is the chat of this call right after its
  subscription was made, and whenever no later subscription has its chat listed. The
  timeout of a subscription, when it runs, removes that subscription and no other; no
  call of \<^verbatim>\<open>setChatViewObject\<close>, none of its parts and no setting or clearing of the
  thread removes a subscription.
\<close>

theorem chat_creation_subscription:
  assumes "chatID \<noteq> ''''"
    and "s1 = setChatViewObjectAsChat user (Resolved None) (Resolved (Some chatID)) s"
  shows "addChatWithUserOnFirestore_calls s1 = addChatWithUserOnFirestore_calls s @ [user_id user] \<and>
         addChatWithUserOnFirestore_calls
             (snd (setChatViewObject (SelectUser user) (Resolved None) (Resolved (Some chatID)) s)) =
           addChatWithUserOnFirestore_calls s @ [user_id user] \<and>
         chatListChange_subscriptions s1 =
           chatListChange_subscriptions s @ [(next_subscription s, chatID)] \<and>
         (find (\<lambda>chat. chat_id chat = chatID) cs = Some chat \<longrightarrow>
            u_chatViewObject (chatListChange cs s1) = Some (Chat chat) \<and>
            u_chatViewPath (chatListChange cs s1) = Some (chatMessagesPath chat) \<and>
            next_subscription s \<in> set (unsubscribe_timeouts (chatListChange cs s1)) \<and>
            chatListChange_subscriptions (chatListChange cs s1) = chatListChange_subscriptions s1) \<and>
         chatListChange cs t =
           foldl (\<lambda>s' sub. chatListChange_callback sub s') (t\<lparr>chats := cs\<rparr>)
             (chatListChange_subscriptions t) \<and>
         (find (\<lambda>chat. chat_id chat = snd sub) (chats t) = Some chat \<longrightarrow>
            chatListChange_callback sub t =
              t\<lparr>u_chatViewObject := Some (Chat chat),
                u_chatViewPath := Some (chatMessagesPath chat),
                unsubscribe_timeouts := unsubscribe_timeouts t @ [fst sub]\<rparr>) \<and>
         (find (\<lambda>chat. chat_id chat = snd sub) (chats t) = None \<longrightarrow>
            chatListChange_callback sub t = t) \<and>
         chatListChange_subscriptions (chatListChange cs t) = chatListChange_subscriptions t \<and>
         unsubscribe_timeouts (chatListChange cs t) =
           unsubscribe_timeouts t @
             map fst (filter (\<lambda>sub. find (\<lambda>chat. chat_id chat = snd sub) cs \<noteq> None)
               (chatListChange_subscriptions t)) \<and>
         ((\<forall>sub \<in> set (chatListChange_subscriptions t).
              find (\<lambda>chat. chat_id chat = snd sub) cs = None) \<longrightarrow>
            chatListChange cs t = t\<lparr>chats := cs\<rparr>) \<and>
         (chatListChange_subscriptions t = pre @ [(h, i)] @ post \<and>
          find (\<lambda>chat. chat_id chat = i) cs = Some chat \<and>
          (\<forall>sub \<in> set post. find (\<lambda>chat. chat_id chat = snd sub) cs = None) \<longrightarrow>
            u_chatViewObject (chatListChange cs t) = Some (Chat chat) \<and>
            u_chatViewPath (chatListChange cs t) = Some (chatMessagesPath chat)) \<and>
         (h \<in> set (unsubscribe_timeouts t) \<longrightarrow>
            chatListChange_subscriptions (unsubscribe_timeout h t) =
              filter (\<lambda>sub. fst sub \<noteq> h) (chatListChange_subscriptions t) \<and>
            h \<notin> fst ` set (chatListChange_subscriptions (unsubscribe_timeout h t))) \<and>
         (h \<notin> set (unsubscribe_timeouts t) \<longrightarrow> unsubscribe_timeout h t = t) \<and>
         (\<exists>new. chatListChange_subscriptions (snd (setChatViewObject object lookup creation t)) =
            chatListChange_subscriptions t @ new) \<and>
         chatListChange_subscriptions (setChatViewObject_beforeTimeout object t) =
           chatListChange_subscriptions t \<and>
         chatListChange_subscriptions (setChatViewObjectAsChat_afterLookup user lookup t) =
           chatListChange_subscriptions t \<and>
         chatListChange_subscriptions (snd (setChatViewObject_afterTimeout object t)) =
           chatListChange_subscriptions t \<and>
         (\<exists>new. chatListChange_subscriptions (setChatViewObjectAsChat_afterCreation creation t) =
            chatListChange_subscriptions t @ new) \<and>
         chatListChange_subscriptions (setThreadViewObject message t) =
           chatListChange_subscriptions t \<and>
         chatListChange_subscriptions (clearThreadViewObject t) = chatListChange_subscriptions t"
proof -
  have c1: "addChatWithUserOnFirestore_calls s1 =
        addChatWithUserOnFirestore_calls s @ [user_id user]"
    using assms by (simp add: nav_defs Let_def)
  have c2: "addChatWithUserOnFirestore_calls
             (snd (setChatViewObject (SelectUser user) (Resolved None) (Resolved (Some chatID)) s)) =
           addChatWithUserOnFirestore_calls s @ [user_id user]"
    using assms(1) by (simp add: nav_defs Let_def)
  have c3: "chatListChange_subscriptions s1 =
           chatListChange_subscriptions s @ [(next_subscription s, chatID)]"
    using assms by (simp add: nav_defs Let_def)
  have c4: "find (\<lambda>chat. chat_id chat = chatID) cs = Some chat \<longrightarrow>
            u_chatViewObject (chatListChange cs s1) = Some (Chat chat) \<and>
            u_chatViewPath (chatListChange cs s1) = Some (chatMessagesPath chat) \<and>
            next_subscription s \<in> set (unsubscribe_timeouts (chatListChange cs s1)) \<and>
            chatListChange_subscriptions (chatListChange cs s1) = chatListChange_subscriptions s1"
    using chatListChange_found [OF c3] by blast
  have g0: "chatListChange cs t =
           foldl (\<lambda>s' sub. chatListChange_callback sub s') (t\<lparr>chats := cs\<rparr>)
             (chatListChange_subscriptions t)"
    by (simp add: chatListChange_def)
  have g1: "find (\<lambda>chat. chat_id chat = snd sub) (chats t) = Some chat \<longrightarrow>
            chatListChange_callback sub t =
              t\<lparr>u_chatViewObject := Some (Chat chat),
                u_chatViewPath := Some (chatMessagesPath chat),
                unsubscribe_timeouts := unsubscribe_timeouts t @ [fst sub]\<rparr>"
    by (simp add: chatListChange_callback_def)
  have g2: "find (\<lambda>chat. chat_id chat = snd sub) (chats t) = None \<longrightarrow>
            chatListChange_callback sub t = t"
    by (simp add: callback_not_listed)
  have g3: "chatListChange_subscriptions (chatListChange cs t) = chatListChange_subscriptions t"
    by (rule subscriptions_chatListChange)
  have g4: "unsubscribe_timeouts (chatListChange cs t) =
           unsubscribe_timeouts t @
             map fst (filter (\<lambda>sub. find (\<lambda>chat. chat_id chat = snd sub) cs \<noteq> None)
               (chatListChange_subscriptions t))"
    by (rule timeouts_chatListChange)
  have g5: "(\<forall>sub \<in> set (chatListChange_subscriptions t).
              find (\<lambda>chat. chat_id chat = snd sub) cs = None) \<longrightarrow>
            chatListChange cs t = t\<lparr>chats := cs\<rparr>"
    using chatListChange_not_listed by blast
  have g6: "chatListChange_subscriptions t = pre @ [(h, i)] @ post \<and>
          find (\<lambda>chat. chat_id chat = i) cs = Some chat \<and>
          (\<forall>sub \<in> set post. find (\<lambda>chat. chat_id chat = snd sub) cs = None) \<longrightarrow>
            u_chatViewObject (chatListChange cs t) = Some (Chat chat) \<and>
            u_chatViewPath (chatListChange cs t) = Some (chatMessagesPath chat)"
    using chatListChange_last_listed by blast
  have g7: "h \<in> set (unsubscribe_timeouts t) \<longrightarrow>
            chatListChange_subscriptions (unsubscribe_timeout h t) =
              filter (\<lambda>sub. fst sub \<noteq> h) (chatListChange_subscriptions t) \<and>
            h \<notin> fst ` set (chatListChange_subscriptions (unsubscribe_timeout h t))"
    using subscriptions_unsubscribe_timeout unsubscribe_timeout_cancels by blast
  have g8: "h \<notin> set (unsubscribe_timeouts t) \<longrightarrow> unsubscribe_timeout h t = t"
    by (simp add: unsubscribe_timeout_def)
  have g9: "\<exists>new. chatListChange_subscriptions (snd (setChatViewObject object lookup creation t)) =
            chatListChange_subscriptions t @ new"
    by (rule subscriptions_setChatViewObject)
  note g10 = subscriptions_steps [where object = object and t = t and user = user
      and lookup = lookup and creation = creation and message = message]
  from c1 c2 c3 c4 g0 g1 g2 g3 g4 g5 g6 g7 g8 g9 g10 show ?thesis by blast
qed

lemmas trace_defs = waiting_ex_def surfaced_ex_def left_ex_def carol_ex_def carol_chat_ex_def
  chat_ex_def user_ex_def app_ex_def general_ex_def chatListChange_def
  chatListChange_callback_def unsubscribe_timeout_def

theorem chat_creation_subscription_witness:
  "''c14'' \<noteq> '''' \<and>
   addChatWithUserOnFirestore_calls waiting_ex = [''u4''] \<and>
   chatListChange_subscriptions waiting_ex = [(0, ''c14'')] \<and>
   find (\<lambda>chat. chat_id chat = ''c14'') [carol_chat_ex] = Some carol_chat_ex \<and>
   u_chatViewObject surfaced_ex = Some (Chat carol_chat_ex) \<and>
   u_chatViewPath surfaced_ex = Some ''chats/c14/messages'' \<and>
   0 \<in> set (unsubscribe_timeouts surfaced_ex) \<and>
   chatListChange_subscriptions (unsubscribe_timeout 0 surfaced_ex) = [] \<and>
   chatListChange [] (unsubscribe_timeout 0 surfaced_ex) =
     (unsubscribe_timeout 0 surfaced_ex)\<lparr>chats := []\<rparr> \<and>
   chatListChange_subscriptions two_waiting_ex = [] @ [(0, ''c14'')] @ [(1, ''c15'')] \<and>
   list_all (\<lambda>sub. find (\<lambda>chat. chat_id chat = snd sub) [carol_chat_ex] = None)
     [(1::nat, ''c15'')] \<and>
   u_chatViewObject (chatListChange [carol_chat_ex] two_waiting_ex) = Some (Chat carol_chat_ex) \<and>
   unsubscribe_timeouts (chatListChange [carol_chat_ex] two_waiting_ex) = [0] \<and>
   chatListChange_subscriptions two_waiting_ex = [(0, ''c14'')] @ [(1, ''c15'')] @ [] \<and>
   find (\<lambda>chat. chat_id chat = ''c15'') [carol_chat_ex, dave_chat_ex] = Some dave_chat_ex \<and>
   u_chatViewObject (chatListChange [carol_chat_ex, dave_chat_ex] two_waiting_ex) =
     Some (Chat dave_chat_ex) \<and>
   unsubscribe_timeouts (chatListChange [carol_chat_ex, dave_chat_ex] two_waiting_ex) = [0, 1]"
proof -
  have i: "''c14'' \<noteq> ''''" by simp
  have f: "find (\<lambda>chat. chat_id chat = ''c14'') [carol_chat_ex] = Some carol_chat_ex"
    "find (\<lambda>chat. chat_id chat = ''c15'') [carol_chat_ex, dave_chat_ex] = Some dave_chat_ex"
    "find (\<lambda>chat. chat_id chat = ''c15'') [carol_chat_ex] = None"
    "find (\<lambda>chat. chat_id chat = ''c14'') [carol_chat_ex, dave_chat_ex] = Some carol_chat_ex"
    by (simp_all add: carol_chat_ex_def dave_chat_ex_def chat_ex_def)
  have e: "addChatWithUserOnFirestore_calls
             (setChatViewObject_beforeTimeout (SelectUser carol_ex)
                (app_ex None (Some (user_ex ''u1'' ''alice'')))) = []"
    "chatListChange_subscriptions
             (setChatViewObject_beforeTimeout (SelectUser carol_ex)
                (app_ex None (Some (user_ex ''u1'' ''alice'')))) = []"
    "next_subscription
             (setChatViewObject_beforeTimeout (SelectUser carol_ex)
                (app_ex None (Some (user_ex ''u1'' ''alice'')))) = 0"
    "user_id carol_ex = ''u4''"
    "chatMessagesPath carol_chat_ex = ''chats/c14/messages''"
    by (simp_all add: nav_defs app_ex_def carol_ex_def user_ex_def carol_chat_ex_def chat_ex_def)
  have w: "chatListChange_subscriptions two_waiting_ex = [(0, ''c14''), (1, ''c15'')]"
    "unsubscribe_timeouts two_waiting_ex = []"
    by (simp_all add: two_waiting_ex_def waiting_ex_def nav_defs Let_def app_ex_def)
  have u: "unsubscribe_timeouts surfaced_ex = [0]"
    "chatListChange_subscriptions surfaced_ex = [(0, ''c14'')]"
    by (simp_all add: trace_defs nav_defs Let_def)
  note first = chat_creation_subscription [OF i waiting_ex_def, where cs = "[carol_chat_ex]"
      and chat = carol_chat_ex and t = two_waiting_ex and sub = "(0, ''c14'')" and pre = "[]"
      and h = 0 and i = "''c14''" and post = "[(1, ''c15'')]"
      and object = "SelectChannel general_ex" and lookup = Rejected and creation = Rejected
      and message = "message_ex ''a'' 5 ''x''"]
  note second = chat_creation_subscription [OF i waiting_ex_def,
      where cs = "[carol_chat_ex, dave_chat_ex]"
      and chat = dave_chat_ex and t = two_waiting_ex and sub = "(1, ''c15'')"
      and pre = "[(0, ''c14'')]" and h = 1 and i = "''c15''" and post = "[]"
      and object = "SelectChannel general_ex" and lookup = Rejected and creation = Rejected
      and message = "message_ex ''a'' 5 ''x''"]
  note timeout = chat_creation_subscription [OF i waiting_ex_def, where cs = "[]"
      and chat = carol_chat_ex and t = surfaced_ex and sub = "(0, ''c14'')" and pre = "[]"
      and h = 0 and i = "''c14''" and post = "[]"
      and object = "SelectChannel general_ex" and lookup = Rejected and creation = Rejected
      and message = "message_ex ''a'' 5 ''x''"]
  note after = chat_creation_subscription [OF i waiting_ex_def, where cs = "[]"
      and chat = carol_chat_ex and t = "unsubscribe_timeout 0 surfaced_ex"
      and sub = "(0, ''c14'')" and pre = "[]"
      and h = 0 and i = "''c14''" and post = "[]"
      and object = "SelectChannel general_ex" and lookup = Rejected and creation = Rejected
      and message = "message_ex ''a'' 5 ''x''"]
  have ids: "chat_id carol_chat_ex = ''c14''" "chat_id dave_chat_ex = ''c15''"
    by (simp_all add: carol_chat_ex_def dave_chat_ex_def chat_ex_def)
  have w1: "chatListChange_subscriptions two_waiting_ex = [] @ [(0, ''c14'')] @ [(1, ''c15'')]"
    and w2: "chatListChange_subscriptions two_waiting_ex = [(0, ''c14'')] @ [(1, ''c15'')] @ []"
    by (simp_all add: w)
  have n1: "\<forall>sub \<in> set [(1::nat, ''c15'')].
      find (\<lambda>chat. chat_id chat = snd sub) [carol_chat_ex] = None"
    and n2: "\<forall>sub \<in> set ([]::(nat \<times> string) list).
      find (\<lambda>chat. chat_id chat = snd sub) [carol_chat_ex, dave_chat_ex] = None"
    by (simp_all add: ids)
  from first have "addChatWithUserOnFirestore_calls waiting_ex =
      addChatWithUserOnFirestore_calls (setChatViewObject_beforeTimeout (SelectUser carol_ex)
        (app_ex None (Some (user_ex ''u1'' ''alice'')))) @ [user_id carol_ex]"
    by blast
  then have 1: "addChatWithUserOnFirestore_calls waiting_ex = [''u4'']"
    by (simp add: e)
  from first have "chatListChange_subscriptions waiting_ex =
      chatListChange_subscriptions (setChatViewObject_beforeTimeout (SelectUser carol_ex)
        (app_ex None (Some (user_ex ''u1'' ''alice'')))) @
      [(next_subscription (setChatViewObject_beforeTimeout (SelectUser carol_ex)
        (app_ex None (Some (user_ex ''u1'' ''alice'')))), ''c14'')]"
    by blast
  then have 2: "chatListChange_subscriptions waiting_ex = [(0, ''c14'')]"
    by (simp add: e)
  from first f(1) have "u_chatViewObject (chatListChange [carol_chat_ex] waiting_ex) =
      Some (Chat carol_chat_ex) \<and>
    u_chatViewPath (chatListChange [carol_chat_ex] waiting_ex) =
      Some (chatMessagesPath carol_chat_ex)"
    by blast
  then have 3: "u_chatViewObject surfaced_ex = Some (Chat carol_chat_ex) \<and>
     u_chatViewPath surfaced_ex = Some ''chats/c14/messages''"
    by (simp add: surfaced_ex_def e)
  from first w1 f(1) n1 have 4: "u_chatViewObject (chatListChange [carol_chat_ex] two_waiting_ex) =
       Some (Chat carol_chat_ex)"
    by blast
  from first have "unsubscribe_timeouts (chatListChange [carol_chat_ex] two_waiting_ex) =
      unsubscribe_timeouts two_waiting_ex @
        map fst (filter (\<lambda>sub. find (\<lambda>chat. chat_id chat = snd sub) [carol_chat_ex] \<noteq> None)
          (chatListChange_subscriptions two_waiting_ex))"
    by blast
  then have 5: "unsubscribe_timeouts (chatListChange [carol_chat_ex] two_waiting_ex) = [0]"
    by (simp add: w ids)
  from second w2 f(2) n2
  have 6: "u_chatViewObject (chatListChange [carol_chat_ex, dave_chat_ex] two_waiting_ex) =
       Some (Chat dave_chat_ex)"
    by blast
  from second have "unsubscribe_timeouts (chatListChange [carol_chat_ex, dave_chat_ex] two_waiting_ex) =
      unsubscribe_timeouts two_waiting_ex @
        map fst (filter (\<lambda>sub. find (\<lambda>chat. chat_id chat = snd sub)
            [carol_chat_ex, dave_chat_ex] \<noteq> None)
          (chatListChange_subscriptions two_waiting_ex))"
    by blast
  then have 7: "unsubscribe_timeouts (chatListChange [carol_chat_ex, dave_chat_ex] two_waiting_ex) =
      [0, 1]"
    by (simp add: w ids)
  have m: "0 \<in> set (unsubscribe_timeouts surfaced_ex)" by (simp add: u)
  from timeout m have "chatListChange_subscriptions (unsubscribe_timeout 0 surfaced_ex) =
      filter (\<lambda>sub. fst sub \<noteq> 0) (chatListChange_subscriptions surfaced_ex)"
    by blast
  then have 8: "chatListChange_subscriptions (unsubscribe_timeout 0 surfaced_ex) = []"
    by (simp add: u)
  then have "\<forall>sub \<in> set (chatListChange_subscriptions (unsubscribe_timeout 0 surfaced_ex)).
      find (\<lambda>chat. chat_id chat = snd sub) [] = None"
    by simp
  with after have 9: "chatListChange [] (unsubscribe_timeout 0 surfaced_ex) =
     (unsubscribe_timeout 0 surfaced_ex)\<lparr>chats := []\<rparr>"
    by blast
  have l: "list_all (\<lambda>sub. find (\<lambda>chat. chat_id chat = snd sub) [carol_chat_ex] = None)
     [(1::nat, ''c15'')]"
    by (simp add: ids)
  from i f(1) f(2) m w1 w2 l 1 2 3 4 5 6 7 8 9 show ?thesis by blast
qed

text \<open>
  Claim C2 as stated fails between the notification and the timeout: the user selects a
  channel, the next notification puts the chat on view again. And while no list holds
  the chat, the subscription stays alive with no timeout pending.
\<close>

theorem notification_before_unsubscribe:
  "u_chatViewObject surfaced_ex = Some (Chat carol_chat_ex) \<and>
   unsubscribe_timeouts surfaced_ex = [0] \<and>
   u_chatViewObject left_ex = Some (Channel general_ex) \<and>
   u_chatViewObject (chatListChange [carol_chat_ex] left_ex) = Some (Chat carol_chat_ex) \<and>
   u_chatViewObject (chatListChange [carol_chat_ex] left_ex) \<noteq> u_chatViewObject left_ex \<and>
   chatListChange_subscriptions (chatListChange [] (chatListChange [] waiting_ex)) =
     [(0, ''c14'')] \<and>
   unsubscribe_timeouts (chatListChange [] (chatListChange [] waiting_ex)) = []"
  by (simp add: trace_defs nav_defs Let_def)

end
